theory Spec2Isabelle
  imports Complex_Main "HOL-Library.Word"
begin

unbundle bit_operations_syntax

section \<open>Errors and values\<close>

text \<open>
  The model follows \<^verbatim>\<open>7_Tamara_Agent/plc_tool.py\<close>. Every Python exception the modelled
  paths can raise is a value of \<open>error\<close>; the text of a \<^verbatim>\<open>ValueError\<close> is kept as a
  structured message (the f-string's arguments, not its rendering).
\<close>

type_synonym byte = "8 word"

text \<open>A Python \<^verbatim>\<open>str\<close> is a sequence of Unicode code points; \<^verbatim>\<open>len\<close> counts them.\<close>

type_synonym pystr = "int list"

text \<open>
  A Python \<^verbatim>\<open>float\<close> result of \<^verbatim>\<open>struct.unpack('>f', ...)\<close>: a finite value (a rational),
  an infinity or a NaN. Negative zero is read as \<open>Fin 0\<close>.
\<close>

datatype pyfloat = Fin rat | PInf | NInf | NaN

datatype pyval = VReal pyfloat | VInt int | VBool bool | VStr pystr

datatype error =
    PermissionError
  | TypeError
  | IndexError
  | StructError
  | OverflowError
  | UnicodeEncodeError
  | UnicodeDecodeError
  | ValueError msg
and msg =
    UnknownTag string
  | NotAString string
  | StringTooLong pystr int
  | ByteOutOfRange
  | TooManyValuesToUnpack
  | CustomSolventRequired
  | FailedToClear string
  | FailedToSet string bool
  | VerificationFailed "(string \<times> pyval \<times> pyval) list"
  | TransactionFailed error "rollback_error list"
  | TransactionRolledBack error
and rollback_error =
    FailedToRollback string
  | ErrorDuringRollback string error

section \<open>The simulated transport (\<^verbatim>\<open>_SimClient\<close>)\<close>

datatype sim_event =
    SimWrite nat nat "byte list"
  | SimRead nat nat "byte list"
  | SimWriteBit nat nat nat bool
  | SimReadBit nat nat nat bool

text \<open>
  \<open>sim_log\<close> is what the simulator passes to \<^verbatim>\<open>logger.info\<close> under \<^verbatim>\<open>PLC_SIM_DEBUG\<close>: one
  entry per transport call that passed the whitelist.
\<close>

record SimClient =
  connected :: bool
  db :: "byte list"
  debug :: bool
  sim_log :: "sim_event list"

text \<open>\<^verbatim>\<open>__init__\<close>: \<^verbatim>\<open>bytearray(219)\<close> is 219 zero bytes.\<close>

definition sim_init :: "bool \<Rightarrow> SimClient" where
  "sim_init dbg = \<lparr>connected = False, db = replicate 219 0, debug = dbg, sim_log = []\<rparr>"

definition sim_connect :: "SimClient \<Rightarrow> SimClient" where
  "sim_connect c = c\<lparr>connected := True\<rparr>"

definition sim_info :: "sim_event \<Rightarrow> SimClient \<Rightarrow> SimClient" where
  "sim_info ev c = (if debug c then c\<lparr>sim_log := sim_log c @ [ev]\<rparr> else c)"

text \<open>
  The literal in \<^verbatim>\<open>self._db.extend(b'\\x00' * n)\<close> has an escaped backslash: it is the four
  bytes \<^verbatim>\<open>\\\<close>, \<^verbatim>\<open>x\<close>, \<^verbatim>\<open>0\<close>, \<^verbatim>\<open>0\<close>, so \<open>n\<close> copies of it are appended.
\<close>

definition pad_bytes :: "byte list" where
  "pad_bytes = [92, 120, 48, 48]"

definition extend_db :: "nat \<Rightarrow> SimClient \<Rightarrow> SimClient" where
  "extend_db n c = c\<lparr>db := db c @ concat (replicate n pad_bytes)\<rparr>"

definition db_write :: "nat \<Rightarrow> nat \<Rightarrow> byte list \<Rightarrow> SimClient \<Rightarrow> (error + unit) \<times> SimClient" where
  "db_write db_number start data c =
     (if db_number \<noteq> 9 then (Inl PermissionError, c)
      else
        let end = start + length data;
            c1 = (if end > length (db c) then extend_db (end - length (db c)) c else c);
            c2 = c1\<lparr>db := take start (db c1) @ data @ drop end (db c1)\<rparr>
        in (Inr (), sim_info (SimWrite db_number start data) c2))"

definition db_read :: "nat \<Rightarrow> nat \<Rightarrow> nat \<Rightarrow> SimClient \<Rightarrow> (error + byte list) \<times> SimClient" where
  "db_read db_number start sz c =
     (if db_number \<noteq> 9 then (Inl PermissionError, c)
      else
        let end = start + sz;
            c1 = (if end > length (db c) then extend_db (end - length (db c)) c else c);
            result = take sz (drop start (db c1))
        in (Inr result, sim_info (SimRead db_number start result) c1))"

text \<open>
  \<^verbatim>\<open>db_write_bit\<close>: \<^verbatim>\<open>current_byte | (1 << bit_offset)\<close> does not fit a \<^verbatim>\<open>bytearray\<close> cell
  when \<open>bit_offset \<ge> 8\<close>, and the assignment raises \<^verbatim>\<open>ValueError\<close>; the region has been
  extended by then.
\<close>

definition db_write_bit :: "nat \<Rightarrow> nat \<Rightarrow> nat \<Rightarrow> bool \<Rightarrow> SimClient \<Rightarrow> (error + unit) \<times> SimClient" where
  "db_write_bit db_number byte_offset bit_offset v c =
     (if db_number \<noteq> 9 then (Inl PermissionError, c)
      else
        let c1 = (if byte_offset \<ge> length (db c)
                  then extend_db (byte_offset - length (db c) + 1) c else c);
            current_byte = db c1 ! byte_offset;
            new_byte = (if v then current_byte OR push_bit bit_offset 1
                        else current_byte AND NOT (push_bit bit_offset 1))
        in if v \<and> bit_offset \<ge> 8 then (Inl (ValueError ByteOutOfRange), c1)
           else (Inr (), sim_info (SimWriteBit db_number byte_offset bit_offset v)
                           (c1\<lparr>db := (db c1)[byte_offset := new_byte]\<rparr>)))"

definition db_read_bit :: "nat \<Rightarrow> nat \<Rightarrow> nat \<Rightarrow> SimClient \<Rightarrow> (error + bool) \<times> SimClient" where
  "db_read_bit db_number byte_offset bit_offset c =
     (if db_number \<noteq> 9 then (Inl PermissionError, c)
      else
        let c1 = (if byte_offset \<ge> length (db c)
                  then extend_db (byte_offset - length (db c) + 1) c else c);
            current_byte = db c1 ! byte_offset;
            result = (current_byte AND push_bit bit_offset 1 \<noteq> 0)
        in (Inr result, sim_info (SimReadBit db_number byte_offset bit_offset result) c1))"

text \<open>
  The byte a read of address \<open>i\<close> returns: the stored byte, or the byte an extension
  puts there. Every extension appends whole copies of \<open>pad_bytes\<close>, so this does not
  depend on how far earlier calls extended the region.
\<close>

definition cell :: "SimClient \<Rightarrow> nat \<Rightarrow> byte" where
  "cell c i = (if i < length (db c) then db c ! i
               else pad_bytes ! ((i - length (db c)) mod 4))"

section \<open>Binary floating point\<close>

text \<open>
  A finite Python \<^verbatim>\<open>float\<close> is a rational. \<open>round_bin p qmin\<close> rounds a rational to the
  nearest value with a \<open>p\<close>-bit significand and quantum at least \<open>2 ^ qmin\<close>, ties to even:
  binary64 for Python's own arithmetic and literals, binary32 for \<^verbatim>\<open>struct.pack('>f', ...)\<close>.
  Overflow of binary64 is not modelled.
\<close>

definition pow2 :: "int \<Rightarrow> rat" where
  "pow2 e = (if e \<ge> 0 then 2 ^ nat e else 1 / 2 ^ nat (- e))"

text \<open>The number of binary digits of a positive integer.\<close>

function bitlen :: "int \<Rightarrow> int" where
  "bitlen n = (if n \<le> 0 then 0 else 1 + bitlen (n div 2))"
  by pat_completeness auto
termination
  by (relation "measure nat") auto

text \<open>\<open>\<lfloor>log\<^sub>2 x\<rfloor>\<close> for a positive rational.\<close>

definition ilog2 :: "rat \<Rightarrow> int" where
  "ilog2 x = (let (n, d) = quotient_of x;
                  k = bitlen n - bitlen d
              in if pow2 k \<le> x then k else k - 1)"

definition round_half_even :: "rat \<Rightarrow> int" where
  "round_half_even x =
     (let f = \<lfloor>x\<rfloor>; r = x - of_int f
      in if r < 1 / 2 then f else if r > 1 / 2 then f + 1 else if even f then f else f + 1)"

definition quantum :: "nat \<Rightarrow> int \<Rightarrow> rat \<Rightarrow> int" where
  "quantum p qmin x = max (ilog2 \<bar>x\<bar> - int p + 1) qmin"

definition round_bin :: "nat \<Rightarrow> int \<Rightarrow> rat \<Rightarrow> rat" where
  "round_bin p qmin x =
     (if x = 0 then 0
      else of_int (round_half_even (x / pow2 (quantum p qmin x))) * pow2 (quantum p qmin x))"

definition py_float :: "rat \<Rightarrow> rat" where
  "py_float = round_bin 53 (- 1074)"

definition float32 :: "rat \<Rightarrow> rat" where
  "float32 = round_bin 24 (- 149)"

definition be_bytes4 :: "int \<Rightarrow> byte list" where
  "be_bytes4 b = [of_int (b div 2 ^ 24), of_int (b div 2 ^ 16), of_int (b div 2 ^ 8), of_int b]"

definition be_int :: "byte list \<Rightarrow> int" where
  "be_int bs = foldl (\<lambda>a b. a * 256 + uint b) 0 bs"

text \<open>
  \<^verbatim>\<open>struct.pack('>f', x)\<close>: the binary32 nearest to \<open>x\<close>, big-endian; \<^verbatim>\<open>OverflowError\<close> when
  the nearest binary32 is an infinity.
\<close>

definition float32_bits :: "rat \<Rightarrow> int" where
  "float32_bits y =
     (let a = \<bar>y\<bar>;
          sign = (if y < 0 then 2 ^ 31 else 0);
          e = ilog2 a
      in if a = 0 then 0
         else if e \<ge> - 126
           then sign + (e + 127) * 2 ^ 23 + (\<lfloor>a / pow2 (e - 23)\<rfloor> - 2 ^ 23)
           else sign + \<lfloor>a / pow2 (- 149)\<rfloor>)"

definition pack_f :: "rat \<Rightarrow> error + byte list" where
  "pack_f x =
     (let y = float32 x
      in if \<bar>y\<bar> \<ge> pow2 128 then Inl OverflowError else Inr (be_bytes4 (float32_bits y)))"

definition unpack_f :: "byte list \<Rightarrow> error + pyfloat" where
  "unpack_f bs =
     (if length bs \<noteq> 4 then Inl StructError
      else
        let b = be_int bs; s = b div 2 ^ 31; eb = (b div 2 ^ 23) mod 256; f = b mod 2 ^ 23
        in if eb = 255 then Inr (if f \<noteq> 0 then NaN else if s = 1 then NInf else PInf)
           else
             let a = (if eb = 0 then of_int f * pow2 (- 149)
                      else of_int (2 ^ 23 + f) * pow2 (eb - 150))
             in Inr (Fin (if s = 1 then - a else a)))"

text \<open>\<^verbatim>\<open>struct.pack('>h', v)\<close> and \<^verbatim>\<open>struct.unpack('>h', ...)\<close>.\<close>

definition pack_h :: "int \<Rightarrow> error + byte list" where
  "pack_h v =
     (if v < - 32768 \<or> v > 32767 then Inl StructError
      else let u = v mod 65536 in Inr [of_int (u div 256), of_int u])"

definition unpack_h :: "byte list \<Rightarrow> error + int" where
  "unpack_h bs =
     (if length bs \<noteq> 2 then Inl StructError
      else let u = be_int bs in Inr (if u \<ge> 32768 then u - 65536 else u))"

text \<open>The float operations of the verification: \<^verbatim>\<open>abs(actual - value) > 1e-6\<close>.\<close>

definition py_sub :: "pyfloat \<Rightarrow> rat \<Rightarrow> pyfloat" where
  "py_sub a v = (case a of Fin x \<Rightarrow> Fin (py_float (x - v)) | PInf \<Rightarrow> PInf | NInf \<Rightarrow> NInf | NaN \<Rightarrow> NaN)"

definition py_abs :: "pyfloat \<Rightarrow> pyfloat" where
  "py_abs a = (case a of Fin x \<Rightarrow> Fin \<bar>x\<bar> | PInf \<Rightarrow> PInf | NInf \<Rightarrow> PInf | NaN \<Rightarrow> NaN)"

definition py_gt :: "pyfloat \<Rightarrow> rat \<Rightarrow> bool" where
  "py_gt a t = (case a of Fin x \<Rightarrow> x > t | PInf \<Rightarrow> True | NInf \<Rightarrow> False | NaN \<Rightarrow> False)"

definition tol :: rat where
  "tol = py_float (1 / 10 ^ 6)"

section \<open>UTF-8\<close>

text \<open>\<^verbatim>\<open>value.encode('utf-8')\<close>: a surrogate code point cannot be encoded; an integer outside
  \<open>0 .. 0x10FFFF\<close> is not a code point.\<close>

definition utf8_char :: "int \<Rightarrow> byte list option" where
  "utf8_char c =
     (if c < 0 then None
      else if c < 0x80 then Some [of_int c]
      else if c < 0x800 then Some [of_int (0xC0 + c div 64), of_int (0x80 + c mod 64)]
      else if 0xD800 \<le> c \<and> c \<le> 0xDFFF then None
      else if c < 0x10000
        then Some [of_int (0xE0 + c div 4096), of_int (0x80 + (c div 64) mod 64),
                   of_int (0x80 + c mod 64)]
      else if c < 0x110000
        then Some [of_int (0xF0 + c div 262144), of_int (0x80 + (c div 4096) mod 64),
                   of_int (0x80 + (c div 64) mod 64), of_int (0x80 + c mod 64)]
      else None)"

fun utf8_encode :: "pystr \<Rightarrow> error + byte list" where
  "utf8_encode [] = Inr []"
| "utf8_encode (c # cs) =
     (case utf8_char c of
        None \<Rightarrow> Inl UnicodeEncodeError
      | Some bs \<Rightarrow> (case utf8_encode cs of Inl e \<Rightarrow> Inl e | Inr r \<Rightarrow> Inr (bs @ r)))"

text \<open>
  \<^verbatim>\<open>data.decode('utf-8')\<close>, strict: overlong forms, surrogates, code points above
  \<^verbatim>\<open>U+10FFFF\<close> and truncated sequences raise \<^verbatim>\<open>UnicodeDecodeError\<close>.
\<close>

definition cont :: "int \<Rightarrow> bool" where
  "cont b = (0x80 \<le> b \<and> b \<le> 0xBF)"

fun utf8_dec :: "int list \<Rightarrow> pystr option" where
  "utf8_dec [] = Some []"
| "utf8_dec [b] = (if b < 0x80 then Some [b] else None)"
| "utf8_dec [b, b1] =
     (if b < 0x80 then map_option ((#) b) (utf8_dec [b1])
      else if 0xC2 \<le> b \<and> b \<le> 0xDF \<and> cont b1 then Some [(b - 0xC0) * 64 + (b1 - 0x80)]
      else None)"
| "utf8_dec [b, b1, b2] =
     (if b < 0x80 then map_option ((#) b) (utf8_dec [b1, b2])
      else if 0xC2 \<le> b \<and> b \<le> 0xDF \<and> cont b1
        then map_option ((#) ((b - 0xC0) * 64 + (b1 - 0x80))) (utf8_dec [b2])
      else if 0xE0 \<le> b \<and> b \<le> 0xEF \<and> cont b1 \<and> cont b2
              \<and> (b = 0xE0 \<longrightarrow> 0xA0 \<le> b1) \<and> (b = 0xED \<longrightarrow> b1 \<le> 0x9F)
        then Some [(b - 0xE0) * 4096 + (b1 - 0x80) * 64 + (b2 - 0x80)]
      else None)"
| "utf8_dec (b # b1 # b2 # b3 # r) =
     (if b < 0x80 then map_option ((#) b) (utf8_dec (b1 # b2 # b3 # r))
      else if 0xC2 \<le> b \<and> b \<le> 0xDF \<and> cont b1
        then map_option ((#) ((b - 0xC0) * 64 + (b1 - 0x80))) (utf8_dec (b2 # b3 # r))
      else if 0xE0 \<le> b \<and> b \<le> 0xEF \<and> cont b1 \<and> cont b2
              \<and> (b = 0xE0 \<longrightarrow> 0xA0 \<le> b1) \<and> (b = 0xED \<longrightarrow> b1 \<le> 0x9F)
        then map_option ((#) ((b - 0xE0) * 4096 + (b1 - 0x80) * 64 + (b2 - 0x80)))
               (utf8_dec (b3 # r))
      else if 0xF0 \<le> b \<and> b \<le> 0xF4 \<and> cont b1 \<and> cont b2 \<and> cont b3
              \<and> (b = 0xF0 \<longrightarrow> 0x90 \<le> b1) \<and> (b = 0xF4 \<longrightarrow> b1 \<le> 0x8F)
        then map_option
               ((#) ((b - 0xF0) * 262144 + (b1 - 0x80) * 4096 + (b2 - 0x80) * 64 + (b3 - 0x80)))
               (utf8_dec r)
      else None)"

definition utf8_decode :: "byte list \<Rightarrow> error + pystr" where
  "utf8_decode bs =
     (case utf8_dec (map uint bs) of None \<Rightarrow> Inl UnicodeDecodeError | Some s \<Rightarrow> Inr s)"

section \<open>The whitelisted mapping (\<^verbatim>\<open>DB_CONFIG\<close>)\<close>

text \<open>
  A \<^verbatim>\<open>'start'\<close> entry is a Python \<^verbatim>\<open>int\<close> or a \<^verbatim>\<open>float\<close> literal (\<^verbatim>\<open>258.1\<close> is the double
  nearest to 2581/10).
\<close>

datatype start_addr = IntStart nat | FloatStart rat

datatype plc_type = T_REAL | T_INT | T_BOOL | T_STRING

record cfg =
  cfg_db_number :: nat
  cfg_start :: start_addr
  cfg_type :: plc_type
  cfg_length :: "nat option"

definition entry :: "start_addr \<Rightarrow> plc_type \<Rightarrow> cfg" where
  "entry a t = \<lparr>cfg_db_number = 9, cfg_start = a, cfg_type = t, cfg_length = None\<rparr>"

definition string_entry :: "start_addr \<Rightarrow> nat \<Rightarrow> cfg" where
  "string_entry a n = \<lparr>cfg_db_number = 9, cfg_start = a, cfg_type = T_STRING, cfg_length = Some n\<rparr>"

definition float_lit :: "rat \<Rightarrow> start_addr" where
  "float_lit x = FloatStart (py_float x)"

definition DB_CONFIG :: "(string \<times> (string \<times> cfg) list) list" where
  "DB_CONFIG =
    [(''OPERATION'',
        [(''OPERATION_MODE'', entry (IntStart 198) T_INT),
         (''MACHINE_MODE'', entry (IntStart 200) T_INT),
         (''CRUNCH_VALID'', entry (float_lit 202) T_BOOL)]),
     (''INPUTS'',
        [(''r_TFR'', entry (IntStart 204) T_REAL),
         (''i_FRR'', entry (IntStart 208) T_INT),
         (''r_TARGET_VOLUME'', entry (IntStart 210) T_REAL),
         (''r_TEMPERATURE'', entry (IntStart 214) T_REAL),
         (''i_CHIP_ID'', entry (IntStart 218) T_INT),
         (''i_MANIFOLD_ID'', entry (IntStart 220) T_INT),
         (''i_ORG_SOLVENT_ID'', entry (IntStart 222) T_INT),
         (''s_CUSTOM_ORG_SOLVENT'', string_entry (IntStart 224) 16),
         (''r_LAB_PRESSURE'', entry (IntStart 242) T_REAL)]),
     (''CUSTOM_SOLVENT'',
        [(''r_VISCOSITY'', entry (IntStart 246) T_REAL),
         (''r_SENSITIVITY'', entry (IntStart 250) T_REAL),
         (''r_MOLAR_VOLUME'', entry (IntStart 254) T_REAL)]),
     (''COMMANDS_RUN'',
        [(''b_START'', entry (float_lit 258) T_BOOL),
         (''b_PAUSE_PLAY'', entry (float_lit (2581 / 10)) T_BOOL),
         (''b_CONFIRM'', entry (float_lit (2582 / 10)) T_BOOL),
         (''b_STOP'', entry (float_lit (2583 / 10)) T_BOOL)]),
     (''COMMANDS_CLEAN'',
        [(''b_START'', entry (float_lit 260) T_BOOL),
         (''b_PAUSE_PLAY'', entry (float_lit (2601 / 10)) T_BOOL),
         (''b_CONFIRM'', entry (float_lit (2602 / 10)) T_BOOL),
         (''b_STOP'', entry (float_lit (2603 / 10)) T_BOOL)]),
     (''COMMANDS_PRESSURE_TEST'',
        [(''b_START'', entry (float_lit 262) T_BOOL),
         (''b_PAUSE_PLAY'', entry (float_lit (2621 / 10)) T_BOOL),
         (''b_CONFIRM'', entry (float_lit (2622 / 10)) T_BOOL),
         (''b_STOP'', entry (float_lit (2623 / 10)) T_BOOL)])]"

text \<open>\<^verbatim>\<open>DB_CONFIG[s]\<close> for a section name of the fixed lists below.\<close>

definition section_of :: "string \<Rightarrow> (string \<times> cfg) list" where
  "section_of s = (case map_of DB_CONFIG s of Some sec \<Rightarrow> sec | None \<Rightarrow> [])"

text \<open>
  The loop \<^verbatim>\<open>for s in [...]: if tag in DB_CONFIG[s]: section = s; break\<close>, followed by
  \<^verbatim>\<open>DB_CONFIG[section][tag]\<close>.
\<close>

fun find_tag :: "string list \<Rightarrow> string \<Rightarrow> cfg option" where
  "find_tag [] tag = None"
| "find_tag (s # ss) tag =
     (case map_of (section_of s) tag of Some c \<Rightarrow> Some c | None \<Rightarrow> find_tag ss tag)"

text \<open>\<^verbatim>\<open>tag.split('.')\<close>.\<close>

fun split_dot :: "string \<Rightarrow> string list" where
  "split_dot [] = [[]]"
| "split_dot (c # cs) =
     (if c = CHR ''.'' then [] # split_dot cs
      else (case split_dot cs of p # ps \<Rightarrow> (c # p) # ps | [] \<Rightarrow> [[c]]))"

text \<open>The tag resolution shared by \<^verbatim>\<open>_write_bool\<close> and \<^verbatim>\<open>_read_bool\<close>.\<close>

definition bool_cfg :: "string \<Rightarrow> error + cfg" where
  "bool_cfg tag =
     (if CHR ''.'' \<in> set tag then
        (case split_dot tag of
           [sec, subtag] \<Rightarrow>
             (case map_of DB_CONFIG sec of
                None \<Rightarrow> Inl (ValueError (UnknownTag tag))
              | Some entries \<Rightarrow>
                  (case map_of entries subtag of
                     None \<Rightarrow> Inl (ValueError (UnknownTag tag))
                   | Some c \<Rightarrow> Inr c))
         | _ \<Rightarrow> Inl (ValueError TooManyValuesToUnpack))
      else
        (case find_tag [''OPERATION'', ''COMMANDS_RUN'', ''COMMANDS_CLEAN'',
                        ''COMMANDS_PRESSURE_TEST''] tag of
           None \<Rightarrow> Inl (ValueError (UnknownTag tag))
         | Some c \<Rightarrow> Inr c))"

text \<open>\<^verbatim>\<open>int(cfg['start'])\<close> and \<^verbatim>\<open>int((cfg['start'] % 1) * 10)\<close>, in binary64 for a float.\<close>

definition byte_offset_of :: "start_addr \<Rightarrow> nat" where
  "byte_offset_of a = (case a of IntStart n \<Rightarrow> n | FloatStart x \<Rightarrow> nat \<lfloor>x\<rfloor>)"

definition bit_offset_of :: "start_addr \<Rightarrow> nat" where
  "bit_offset_of a =
     (case a of
        IntStart n \<Rightarrow> 0
      | FloatStart x \<Rightarrow> nat \<lfloor>py_float ((x - of_int \<lfloor>x\<rfloor>) * 10)\<rfloor>)"

section \<open>The interface over the simulator (\<^verbatim>\<open>PLCInterface\<close>)\<close>

text \<open>
  The interface's only mutable state is its client. The model is of an interface whose
  client is the simulator, so each \<^verbatim>\<open>isinstance(self.client, _SimClient)\<close> holds; the
  snap7 client is an external library. A byte-span call with a float \<^verbatim>\<open>start\<close> raises
  \<^verbatim>\<open>TypeError\<close> in the simulator (a float slice index or repeat count) after the
  whitelist check. A method returns its result or error together with the client state
  it leaves.
\<close>

definition client_write :: "nat \<Rightarrow> start_addr \<Rightarrow> byte list \<Rightarrow> SimClient \<Rightarrow> (error + unit) \<times> SimClient" where
  "client_write db_number a data c =
     (case a of
        IntStart n \<Rightarrow> db_write db_number n data c
      | FloatStart x \<Rightarrow> (Inl (if db_number \<noteq> 9 then PermissionError else TypeError), c))"

definition client_read :: "nat \<Rightarrow> start_addr \<Rightarrow> nat \<Rightarrow> SimClient \<Rightarrow> (error + byte list) \<times> SimClient" where
  "client_read db_number a sz c =
     (case a of
        IntStart n \<Rightarrow> db_read db_number n sz c
      | FloatStart x \<Rightarrow> (Inl (if db_number \<noteq> 9 then PermissionError else TypeError), c))"

definition plc_write_real :: "string \<Rightarrow> rat \<Rightarrow> SimClient \<Rightarrow> (error + unit) \<times> SimClient" where
  "plc_write_real tag v c =
     (case find_tag [''OPERATION'', ''INPUTS'', ''CUSTOM_SOLVENT''] tag of
        None \<Rightarrow> (Inl (ValueError (UnknownTag tag)), c)
      | Some g \<Rightarrow>
          (case pack_f (py_float v) of
             Inl e \<Rightarrow> (Inl e, c)
           | Inr data \<Rightarrow> client_write (cfg_db_number g) (cfg_start g) data c))"

definition plc_read_real :: "string \<Rightarrow> SimClient \<Rightarrow> (error + pyfloat) \<times> SimClient" where
  "plc_read_real tag c =
     (case find_tag [''OPERATION'', ''INPUTS'', ''CUSTOM_SOLVENT''] tag of
        None \<Rightarrow> (Inl (ValueError (UnknownTag tag)), c)
      | Some g \<Rightarrow>
          (case client_read (cfg_db_number g) (cfg_start g) 4 c of
             (Inl e, c1) \<Rightarrow> (Inl e, c1)
           | (Inr bs, c1) \<Rightarrow> (unpack_f bs, c1)))"

definition plc_write_int :: "string \<Rightarrow> int \<Rightarrow> SimClient \<Rightarrow> (error + unit) \<times> SimClient" where
  "plc_write_int tag v c =
     (case find_tag [''OPERATION'', ''INPUTS''] tag of
        None \<Rightarrow> (Inl (ValueError (UnknownTag tag)), c)
      | Some g \<Rightarrow>
          (case pack_h v of
             Inl e \<Rightarrow> (Inl e, c)
           | Inr data \<Rightarrow> client_write (cfg_db_number g) (cfg_start g) data c))"

definition plc_read_int :: "string \<Rightarrow> SimClient \<Rightarrow> (error + int) \<times> SimClient" where
  "plc_read_int tag c =
     (case find_tag [''OPERATION'', ''INPUTS''] tag of
        None \<Rightarrow> (Inl (ValueError (UnknownTag tag)), c)
      | Some g \<Rightarrow>
          (case client_read (cfg_db_number g) (cfg_start g) 2 c of
             (Inl e, c1) \<Rightarrow> (Inl e, c1)
           | (Inr bs, c1) \<Rightarrow> (unpack_h bs, c1)))"

definition plc_write_bool :: "string \<Rightarrow> bool \<Rightarrow> SimClient \<Rightarrow> (error + unit) \<times> SimClient" where
  "plc_write_bool tag v c =
     (case bool_cfg tag of
        Inl e \<Rightarrow> (Inl e, c)
      | Inr g \<Rightarrow>
          db_write_bit (cfg_db_number g) (byte_offset_of (cfg_start g))
            (bit_offset_of (cfg_start g)) v c)"

definition plc_read_bool :: "string \<Rightarrow> SimClient \<Rightarrow> (error + bool) \<times> SimClient" where
  "plc_read_bool tag c =
     (case bool_cfg tag of
        Inl e \<Rightarrow> (Inl e, c)
      | Inr g \<Rightarrow>
          db_read_bit (cfg_db_number g) (byte_offset_of (cfg_start g))
            (bit_offset_of (cfg_start g)) c)"

text \<open>
  \<^verbatim>\<open>_write_string\<close>: \<^verbatim>\<open>data[0] = max_len\<close> raises \<^verbatim>\<open>ValueError\<close> above 255. The slice
  assignment \<^verbatim>\<open>data[2:2+len(value)] = value.encode('utf-8')\<close> replaces \<^verbatim>\<open>len(value)\<close> cells
  by the encoded bytes, however many they are.
\<close>

definition plc_write_string :: "string \<Rightarrow> pystr \<Rightarrow> int \<Rightarrow> SimClient \<Rightarrow> (error + unit) \<times> SimClient" where
  "plc_write_string tag v max_len c =
     (case map_of (section_of ''INPUTS'') tag of
        None \<Rightarrow> (Inl (ValueError (UnknownTag tag)), c)
      | Some g \<Rightarrow>
          if cfg_type g \<noteq> T_STRING then (Inl (ValueError (NotAString tag)), c)
          else if int (length v) > max_len then (Inl (ValueError (StringTooLong v max_len)), c)
          else if max_len > 255 then (Inl (ValueError ByteOutOfRange), c)
          else
            (case utf8_encode v of
               Inl e \<Rightarrow> (Inl e, c)
             | Inr enc \<Rightarrow>
                 client_write (cfg_db_number g) (cfg_start g)
                   ([of_int max_len, of_nat (length v)] @ enc
                      @ replicate (nat max_len - length v) 0) c))"

definition start_plus :: "start_addr \<Rightarrow> nat \<Rightarrow> start_addr" where
  "start_plus a k = (case a of IntStart n \<Rightarrow> IntStart (n + k) | FloatStart x \<Rightarrow> FloatStart (py_float (x + of_nat k)))"

definition plc_read_string :: "string \<Rightarrow> SimClient \<Rightarrow> (error + pystr) \<times> SimClient" where
  "plc_read_string tag c =
     (case map_of (section_of ''INPUTS'') tag of
        None \<Rightarrow> (Inl (ValueError (UnknownTag tag)), c)
      | Some g \<Rightarrow>
          if cfg_type g \<noteq> T_STRING then (Inl (ValueError (NotAString tag)), c)
          else
            (case client_read (cfg_db_number g) (cfg_start g) 2 c of
               (Inl e, c1) \<Rightarrow> (Inl e, c1)
             | (Inr header, c1) \<Rightarrow>
                 let actual_len = unat (header ! 1)
                 in if actual_len > 0
                    then (case client_read (cfg_db_number g) (start_plus (cfg_start g) 2)
                                 actual_len c1 of
                            (Inl e, c2) \<Rightarrow> (Inl e, c2)
                          | (Inr data, c2) \<Rightarrow> (utf8_decode data, c2))
                    else (Inr [], c1)))"

section \<open>Transactions (\<^verbatim>\<open>PLCTransaction\<close>)\<close>

text \<open>A queued write: the dictionary with its \<^verbatim>\<open>'type'\<close>, \<^verbatim>\<open>'tag'\<close>, \<^verbatim>\<open>'value'\<close> and \<^verbatim>\<open>'max_len'\<close>.\<close>

datatype queued =
    Q_REAL string rat
  | Q_INT string int
  | Q_BOOL string bool
  | Q_STRING string pystr int

text \<open>\<open>plc\<close> is the interface the transaction was created on (\<^verbatim>\<open>self.plc\<close>).\<close>

record PLCTransaction =
  plc :: SimClient
  writes :: "queued list"
  committed :: bool

definition transaction_init :: "SimClient \<Rightarrow> PLCTransaction" where
  "transaction_init c = \<lparr>plc = c, writes = [], committed = False\<rparr>"

definition tx_write_real :: "string \<Rightarrow> rat \<Rightarrow> PLCTransaction \<Rightarrow> PLCTransaction" where
  "tx_write_real tag v tx = tx\<lparr>writes := writes tx @ [Q_REAL tag (py_float v)]\<rparr>"

definition tx_write_int :: "string \<Rightarrow> int \<Rightarrow> PLCTransaction \<Rightarrow> PLCTransaction" where
  "tx_write_int tag v tx = tx\<lparr>writes := writes tx @ [Q_INT tag v]\<rparr>"

definition tx_write_bool :: "string \<Rightarrow> bool \<Rightarrow> PLCTransaction \<Rightarrow> PLCTransaction" where
  "tx_write_bool tag v tx = tx\<lparr>writes := writes tx @ [Q_BOOL tag v]\<rparr>"

text \<open>A queueing method that can raise returns its result with the transaction it leaves.\<close>

definition tx_write_string :: "string \<Rightarrow> pystr \<Rightarrow> int \<Rightarrow> PLCTransaction \<Rightarrow> (error + unit) \<times> PLCTransaction" where
  "tx_write_string tag v max_len tx =
     (if int (length v) > max_len then (Inl (ValueError (StringTooLong v max_len)), tx)
      else (Inr (), tx\<lparr>writes := writes tx @ [Q_STRING tag v max_len]\<rparr>))"

text \<open>The first loop of \<^verbatim>\<open>commit\<close>: an exception leaves the loop.\<close>

definition execute_write :: "queued \<Rightarrow> SimClient \<Rightarrow> (error + unit) \<times> SimClient" where
  "execute_write w c =
     (case w of
        Q_REAL tag v \<Rightarrow> plc_write_real tag v c
      | Q_INT tag v \<Rightarrow> plc_write_int tag v c
      | Q_BOOL tag v \<Rightarrow> plc_write_bool tag v c
      | Q_STRING tag v max_len \<Rightarrow> plc_write_string tag v max_len c)"

fun execute_writes :: "queued list \<Rightarrow> SimClient \<Rightarrow> (error + unit) \<times> SimClient" where
  "execute_writes [] c = (Inr (), c)"
| "execute_writes (w # ws) c =
     (case execute_write w c of
        (Inl e, c1) \<Rightarrow> (Inl e, c1)
      | (Inr u, c1) \<Rightarrow> execute_writes ws c1)"

text \<open>
  The second loop: each mismatch is appended to \<^verbatim>\<open>errors\<close> as (tag, expected, actual); an
  exception of a read leaves the loop.
\<close>

definition verify_write :: "queued \<Rightarrow> SimClient \<Rightarrow> (error + (string \<times> pyval \<times> pyval) list) \<times> SimClient" where
  "verify_write w c =
     (case w of
        Q_REAL tag v \<Rightarrow>
          (case plc_read_real tag c of
             (Inl e, c1) \<Rightarrow> (Inl e, c1)
           | (Inr actual, c1) \<Rightarrow>
               (Inr (if py_gt (py_abs (py_sub actual v)) tol
                     then [(tag, VReal (Fin v), VReal actual)] else []), c1))
      | Q_INT tag v \<Rightarrow>
          (case plc_read_int tag c of
             (Inl e, c1) \<Rightarrow> (Inl e, c1)
           | (Inr actual, c1) \<Rightarrow>
               (Inr (if actual \<noteq> v then [(tag, VInt v, VInt actual)] else []), c1))
      | Q_BOOL tag v \<Rightarrow>
          (case plc_read_bool tag c of
             (Inl e, c1) \<Rightarrow> (Inl e, c1)
           | (Inr actual, c1) \<Rightarrow>
               (Inr (if actual \<noteq> v then [(tag, VBool v, VBool actual)] else []), c1))
      | Q_STRING tag v max_len \<Rightarrow>
          (case plc_read_string tag c of
             (Inl e, c1) \<Rightarrow> (Inl e, c1)
           | (Inr actual, c1) \<Rightarrow>
               (Inr (if actual \<noteq> v then [(tag, VStr v, VStr actual)] else []), c1)))"

fun verify_writes :: "queued list \<Rightarrow> SimClient \<Rightarrow> (error + (string \<times> pyval \<times> pyval) list) \<times> SimClient" where
  "verify_writes [] c = (Inr [], c)"
| "verify_writes (w # ws) c =
     (case verify_write w c of
        (Inl e, c1) \<Rightarrow> (Inl e, c1)
      | (Inr m, c1) \<Rightarrow>
          (case verify_writes ws c1 of
             (Inl e, c2) \<Rightarrow> (Inl e, c2)
           | (Inr ms, c2) \<Rightarrow> (Inr (m @ ms), c2)))"

text \<open>The \<^verbatim>\<open>try\<close> block: both loops, then \<^verbatim>\<open>if errors: raise ValueError(...)\<close>.\<close>

definition attempt :: "queued list \<Rightarrow> SimClient \<Rightarrow> (error + unit) \<times> SimClient" where
  "attempt ws c =
     (case execute_writes ws c of
        (Inl e, c1) \<Rightarrow> (Inl e, c1)
      | (Inr u, c1) \<Rightarrow>
          (case verify_writes ws c1 of
             (Inl e, c2) \<Rightarrow> (Inl e, c2)
           | (Inr errors, c2) \<Rightarrow>
               if errors \<noteq> [] then (Inl (ValueError (VerificationFailed errors)), c2)
               else (Inr (), c2)))"

text \<open>
  The rollback loop of the \<^verbatim>\<open>except\<close> block: the neutral value is written and read
  back; an exception of either is caught per write and recorded.
\<close>

definition rollback_write :: "queued \<Rightarrow> SimClient \<Rightarrow> rollback_error list \<times> SimClient" where
  "rollback_write w c =
     (case w of
        Q_REAL tag v \<Rightarrow>
          (case plc_write_real tag 0 c of
             (Inl e, c1) \<Rightarrow> ([ErrorDuringRollback tag e], c1)
           | (Inr u, c1) \<Rightarrow>
               (case plc_read_real tag c1 of
                  (Inl e, c2) \<Rightarrow> ([ErrorDuringRollback tag e], c2)
                | (Inr actual, c2) \<Rightarrow>
                    (if py_gt (py_abs actual) tol then [FailedToRollback tag] else [], c2)))
      | Q_INT tag v \<Rightarrow>
          (case plc_write_int tag 0 c of
             (Inl e, c1) \<Rightarrow> ([ErrorDuringRollback tag e], c1)
           | (Inr u, c1) \<Rightarrow>
               (case plc_read_int tag c1 of
                  (Inl e, c2) \<Rightarrow> ([ErrorDuringRollback tag e], c2)
                | (Inr actual, c2) \<Rightarrow>
                    (if actual \<noteq> 0 then [FailedToRollback tag] else [], c2)))
      | Q_BOOL tag v \<Rightarrow>
          (case plc_write_bool tag False c of
             (Inl e, c1) \<Rightarrow> ([ErrorDuringRollback tag e], c1)
           | (Inr u, c1) \<Rightarrow>
               (case plc_read_bool tag c1 of
                  (Inl e, c2) \<Rightarrow> ([ErrorDuringRollback tag e], c2)
                | (Inr actual, c2) \<Rightarrow>
                    (if actual then [FailedToRollback tag] else [], c2)))
      | Q_STRING tag v max_len \<Rightarrow>
          (case plc_write_string tag [] max_len c of
             (Inl e, c1) \<Rightarrow> ([ErrorDuringRollback tag e], c1)
           | (Inr u, c1) \<Rightarrow>
               (case plc_read_string tag c1 of
                  (Inl e, c2) \<Rightarrow> ([ErrorDuringRollback tag e], c2)
                | (Inr actual, c2) \<Rightarrow>
                    (if actual \<noteq> [] then [FailedToRollback tag] else [], c2))))"

fun rollback_writes :: "queued list \<Rightarrow> SimClient \<Rightarrow> rollback_error list \<times> SimClient" where
  "rollback_writes [] c = ([], c)"
| "rollback_writes (w # ws) c =
     (case rollback_write w c of
        (r, c1) \<Rightarrow> (case rollback_writes ws c1 of (rs, c2) \<Rightarrow> (r @ rs, c2)))"

definition commit :: "PLCTransaction \<Rightarrow> (error + unit) \<times> PLCTransaction" where
  "commit tx =
     (if committed tx then (Inr (), tx)
      else
        (case attempt (writes tx) (plc tx) of
           (Inr u, c1) \<Rightarrow> (Inr (), tx\<lparr>plc := c1, committed := True\<rparr>)
         | (Inl e, c1) \<Rightarrow>
             (case rollback_writes (writes tx) c1 of
                (rollback_errors, c2) \<Rightarrow>
                  (Inl (ValueError (if rollback_errors \<noteq> []
                                    then TransactionFailed e rollback_errors
                                    else TransactionRolledBack e)),
                   tx\<lparr>plc := c2\<rparr>))))"

section \<open>Command bits\<close>

datatype MachineMode = RUN | CLEAN | PRESSURE_TEST

datatype ModeCmds = START | PAUSE_PLAY | CONFIRM | STOP

definition mode_map :: "MachineMode \<Rightarrow> string" where
  "mode_map m =
     (case m of RUN \<Rightarrow> ''COMMANDS_RUN'' | CLEAN \<Rightarrow> ''COMMANDS_CLEAN''
      | PRESSURE_TEST \<Rightarrow> ''COMMANDS_PRESSURE_TEST'')"

definition cmd_map :: "ModeCmds \<Rightarrow> string" where
  "cmd_map k =
     (case k of START \<Rightarrow> ''b_START'' | PAUSE_PLAY \<Rightarrow> ''b_PAUSE_PLAY''
      | CONFIRM \<Rightarrow> ''b_CONFIRM'' | STOP \<Rightarrow> ''b_STOP'')"

text \<open>\<^verbatim>\<open>f"{mode_key}.{cmd_key}"\<close>.\<close>

definition cmd_tag :: "string \<Rightarrow> string \<Rightarrow> string" where
  "cmd_tag mode_key cmd_key = mode_key @ ''.'' @ cmd_key"

text \<open>A run of \<^verbatim>\<open>_write_bool\<close> calls; an exception ends it.\<close>

fun write_bools :: "(string \<times> bool) list \<Rightarrow> SimClient \<Rightarrow> (error + unit) \<times> SimClient" where
  "write_bools [] c = (Inr (), c)"
| "write_bools ((tag, v) # ws) c =
     (case plc_write_bool tag v c of
        (Inl e, c1) \<Rightarrow> (Inl e, c1)
      | (Inr u, c1) \<Rightarrow> write_bools ws c1)"

text \<open>
  The writes of \<^verbatim>\<open>pulse_cmd\<close> in the order of the source: the exclusivity clears (the
  other modes in the order of \<^verbatim>\<open>mode_map.values()\<close>, or this mode's other bits), then
  the requested bit.
\<close>

definition pulse_writes :: "MachineMode \<Rightarrow> ModeCmds \<Rightarrow> bool \<Rightarrow> (string \<times> bool) list" where
  "pulse_writes m k v =
     (if k = START \<and> v
        then map (\<lambda>other_mode. (cmd_tag other_mode ''b_START'', False))
               (filter (\<lambda>other_mode. other_mode \<noteq> mode_map m)
                  (map mode_map [RUN, CLEAN, PRESSURE_TEST]))
      else if k = STOP \<and> v
        then map (\<lambda>other_cmd. (cmd_tag (mode_map m) other_cmd, False))
               [''b_START'', ''b_PAUSE_PLAY'', ''b_CONFIRM'']
      else [])
     @ [(cmd_tag (mode_map m) (cmd_map k), v)]"

definition pulse_cmd :: "MachineMode \<Rightarrow> ModeCmds \<Rightarrow> bool \<Rightarrow> SimClient \<Rightarrow> (error + unit) \<times> SimClient" where
  "pulse_cmd m k v c =
     (let target_tag = cmd_tag (mode_map m) (cmd_map k)
      in case write_bools (pulse_writes m k v) c of
           (Inl e, c1) \<Rightarrow> (Inl e, c1)
         | (Inr u, c1) \<Rightarrow>
             (case plc_read_bool target_tag c1 of
                (Inl e, c2) \<Rightarrow> (Inl e, c2)
              | (Inr actual, c2) \<Rightarrow>
                  if actual \<noteq> v then (Inl (ValueError (FailedToSet target_tag v)), c2)
                  else (Inr (), c2)))"

text \<open>The body of the loops of \<^verbatim>\<open>clear_all_cmd_bits\<close>, over the tags in loop order.\<close>

fun clear_bits :: "string list \<Rightarrow> SimClient \<Rightarrow> (error + unit) \<times> SimClient" where
  "clear_bits [] c = (Inr (), c)"
| "clear_bits (tag # tags) c =
     (case plc_write_bool tag False c of
        (Inl e, c1) \<Rightarrow> (Inl e, c1)
      | (Inr u, c1) \<Rightarrow>
          (case plc_read_bool tag c1 of
             (Inl e, c2) \<Rightarrow> (Inl e, c2)
           | (Inr actual, c2) \<Rightarrow>
               if actual then (Inl (ValueError (FailedToClear tag)), c2)
               else clear_bits tags c2))"

definition all_cmd_tags :: "string list" where
  "all_cmd_tags =
     concat (map (\<lambda>mode_key. map (cmd_tag mode_key)
                    [''b_START'', ''b_PAUSE_PLAY'', ''b_CONFIRM'', ''b_STOP''])
               [''COMMANDS_RUN'', ''COMMANDS_CLEAN'', ''COMMANDS_PRESSURE_TEST''])"

definition clear_all_cmd_bits :: "SimClient \<Rightarrow> (error + unit) \<times> SimClient" where
  "clear_all_cmd_bits c = clear_bits all_cmd_tags c"

section \<open>Writing the experiment parameters\<close>

datatype OperationMode = CONVENTIONAL | AGENTIC

datatype ChipID = BAFFLE | HERRINGBONE

datatype ManifoldID = SMALL | LARGE

datatype OrgSolventID = ETHANOL | IPA | ACETONE | METHANOL | CUSTOM

definition int_OperationMode :: "OperationMode \<Rightarrow> int" where
  "int_OperationMode m = (case m of CONVENTIONAL \<Rightarrow> 1 | AGENTIC \<Rightarrow> 2)"

definition int_MachineMode :: "MachineMode \<Rightarrow> int" where
  "int_MachineMode m = (case m of RUN \<Rightarrow> 2 | CLEAN \<Rightarrow> 3 | PRESSURE_TEST \<Rightarrow> 4)"

definition int_ChipID :: "ChipID \<Rightarrow> int" where
  "int_ChipID x = (case x of BAFFLE \<Rightarrow> 0 | HERRINGBONE \<Rightarrow> 1)"

definition int_ManifoldID :: "ManifoldID \<Rightarrow> int" where
  "int_ManifoldID x = (case x of SMALL \<Rightarrow> 0 | LARGE \<Rightarrow> 1)"

definition int_OrgSolventID :: "OrgSolventID \<Rightarrow> int" where
  "int_OrgSolventID x =
     (case x of ETHANOL \<Rightarrow> 0 | IPA \<Rightarrow> 1 | ACETONE \<Rightarrow> 2 | METHANOL \<Rightarrow> 3 | CUSTOM \<Rightarrow> 4)"

record CustomSolvent =
  solvent_name :: pystr
  viscosity :: rat
  sensitivity :: rat
  molar_volume :: rat

record InputPayload =
  tfr :: rat
  frr :: int
  target_volume :: rat
  temperature :: rat
  chip_id :: ChipID
  manifold_id :: ManifoldID
  lab_pressure :: rat
  org_solvent_id :: OrgSolventID
  operation_mode :: OperationMode
  machine_mode :: MachineMode
  custom_solvent :: "CustomSolvent option"

text \<open>
  The body of the \<^verbatim>\<open>with self.transaction() as tx\<close> block of \<^verbatim>\<open>write_parameters_to_plc\<close>:
  it only queues, and raises before anything is committed when a custom solvent is
  missing or its name is too long.
\<close>

definition queue_solvent :: "InputPayload \<Rightarrow> PLCTransaction \<Rightarrow> (error + unit) \<times> PLCTransaction" where
  "queue_solvent payload tx =
     (if org_solvent_id payload = CUSTOM then
        (case custom_solvent payload of
           None \<Rightarrow> (Inl (ValueError CustomSolventRequired), tx)
         | Some cs \<Rightarrow>
             (case tx_write_string ''s_CUSTOM_ORG_SOLVENT'' (solvent_name cs) 16 tx of
                (Inl e, tx1) \<Rightarrow> (Inl e, tx1)
              | (Inr u, tx1) \<Rightarrow>
                  (Inr (), tx_write_real ''r_MOLAR_VOLUME'' (molar_volume cs)
                             (tx_write_real ''r_SENSITIVITY'' (sensitivity cs)
                               (tx_write_real ''r_VISCOSITY'' (viscosity cs) tx1)))))
      else
        (case tx_write_string ''s_CUSTOM_ORG_SOLVENT'' [] 16 tx of
           (Inl e, tx1) \<Rightarrow> (Inl e, tx1)
         | (Inr u, tx1) \<Rightarrow>
             (Inr (), tx_write_real ''r_MOLAR_VOLUME'' 0
                        (tx_write_real ''r_SENSITIVITY'' 0
                          (tx_write_real ''r_VISCOSITY'' 0 tx1)))))"

definition queue_parameters :: "InputPayload \<Rightarrow> PLCTransaction \<Rightarrow> (error + unit) \<times> PLCTransaction" where
  "queue_parameters payload tx =
     queue_solvent payload
       (tx_write_int ''i_ORG_SOLVENT_ID'' (int_OrgSolventID (org_solvent_id payload))
         (tx_write_real ''r_LAB_PRESSURE'' (lab_pressure payload)
           (tx_write_int ''i_MANIFOLD_ID'' (int_ManifoldID (manifold_id payload))
             (tx_write_int ''i_CHIP_ID'' (int_ChipID (chip_id payload))
               (tx_write_real ''r_TEMPERATURE'' (temperature payload)
                 (tx_write_real ''r_TARGET_VOLUME'' (target_volume payload)
                   (tx_write_int ''i_FRR'' (frr payload)
                     (tx_write_real ''r_TFR'' (tfr payload)
                       (tx_write_int ''OPERATION_MODE''
                          (int_OperationMode (operation_mode payload)) tx)))))))))"

text \<open>
  \<^verbatim>\<open>transaction()\<close> creates the transaction on the interface, runs the body and commits;
  an exception of the body or of \<^verbatim>\<open>commit\<close> is logged and raised again.
\<close>

definition write_parameters_to_plc :: "InputPayload \<Rightarrow> SimClient \<Rightarrow> (error + unit) \<times> SimClient" where
  "write_parameters_to_plc payload c =
     (case queue_parameters payload (transaction_init c) of
        (Inl e, tx) \<Rightarrow> (Inl e, plc tx)
      | (Inr u, tx) \<Rightarrow> (case commit tx of (r, tx1) \<Rightarrow> (r, plc tx1)))"

section \<open>Notions used in the statements\<close>

text \<open>
  The data block, byte and bit that a BOOL tag resolves to in \<^verbatim>\<open>_write_bool\<close> and
  \<^verbatim>\<open>_read_bool\<close>.
\<close>

definition bool_addr :: "string \<Rightarrow> error + nat \<times> nat \<times> nat" where
  "bool_addr tag =
     (case bool_cfg tag of
        Inl e \<Rightarrow> Inl e
      | Inr g \<Rightarrow> Inr (cfg_db_number g, byte_offset_of (cfg_start g), bit_offset_of (cfg_start g)))"

text \<open>
  The byte of a mode's command bits and the bit of a command, as \<open>bool_addr\<close> computes
  them (lemma \<open>bool_addr_cmd\<close>): \<^verbatim>\<open>int((258.2 % 1) * 10)\<close> is 1, so \<^verbatim>\<open>b_CONFIRM\<close> shares
  bit 1 with \<^verbatim>\<open>b_PAUSE_PLAY\<close>.
\<close>

definition cmd_byte :: "MachineMode \<Rightarrow> nat" where
  "cmd_byte m = (case m of RUN \<Rightarrow> 258 | CLEAN \<Rightarrow> 260 | PRESSURE_TEST \<Rightarrow> 262)"

definition cmd_bit :: "ModeCmds \<Rightarrow> nat" where
  "cmd_bit k = (case k of START \<Rightarrow> 0 | PAUSE_PLAY \<Rightarrow> 1 | CONFIRM \<Rightarrow> 1 | STOP \<Rightarrow> 3)"

text \<open>
  The byte offset a byte-span method (\<^verbatim>\<open>_write_real\<close>, \<^verbatim>\<open>_read_int\<close>, ...) resolves a tag
  to when it searches the given sections, if the tag is found there with an integer
  \<^verbatim>\<open>start\<close> in data block 9; otherwise the method raises without a transport call.
\<close>

definition span_addr :: "string list \<Rightarrow> string \<Rightarrow> nat option" where
  "span_addr sections tag =
     (case find_tag sections tag of
        None \<Rightarrow> None
      | Some g \<Rightarrow>
          (case cfg_start g of
             IntStart a \<Rightarrow> if cfg_db_number g = 9 then Some a else None
           | FloatStart x \<Rightarrow> None))"

text \<open>
  A queued write is well typed when its tag is declared, in the sections its method
  searches, with the type it is queued as (for a string with the declared length as
  \<^verbatim>\<open>max_len\<close>).
\<close>

definition well_typed :: "queued \<Rightarrow> bool" where
  "well_typed w =
     (case w of
        Q_REAL tag v \<Rightarrow>
          (case find_tag [''OPERATION'', ''INPUTS'', ''CUSTOM_SOLVENT''] tag of
             Some g \<Rightarrow> cfg_type g = T_REAL | None \<Rightarrow> False)
      | Q_INT tag v \<Rightarrow>
          (case find_tag [''OPERATION'', ''INPUTS''] tag of
             Some g \<Rightarrow> cfg_type g = T_INT | None \<Rightarrow> False)
      | Q_BOOL tag v \<Rightarrow>
          (case bool_cfg tag of Inr g \<Rightarrow> cfg_type g = T_BOOL | Inl e \<Rightarrow> False)
      | Q_STRING tag v max_len \<Rightarrow>
          (case map_of (section_of ''INPUTS'') tag of
             Some g \<Rightarrow> cfg_type g = T_STRING \<and> cfg_length g = Some (nat max_len) \<and> 0 \<le> max_len
           | None \<Rightarrow> False))"


text \<open>
  For the proofs: the cells a well-typed write's read-back depends on are zero, and a
  client state whose cells have no bit set that another's has not, byte 224 (the
  \<^verbatim>\<open>max_len\<close> header of the string) apart.
\<close>

definition zeroed :: "queued \<Rightarrow> SimClient \<Rightarrow> bool" where
  "zeroed w c =
     (case w of
        Q_REAL tag v \<Rightarrow>
          (case span_addr [''OPERATION'', ''INPUTS'', ''CUSTOM_SOLVENT''] tag of
             Some a \<Rightarrow> list_all (\<lambda>i. cell c i = 0) [a, a + 1, a + 2, a + 3] | None \<Rightarrow> False)
      | Q_INT tag v \<Rightarrow>
          (case span_addr [''OPERATION'', ''INPUTS''] tag of
             Some a \<Rightarrow> list_all (\<lambda>i. cell c i = 0) [a, a + 1] | None \<Rightarrow> False)
      | Q_BOOL tag v \<Rightarrow>
          (case bool_addr tag of Inr (n, a, b) \<Rightarrow> \<not> bit (cell c a) b | Inl e \<Rightarrow> False)
      | Q_STRING tag v max_len \<Rightarrow> cell c 225 = 0)"

definition quiet :: "SimClient \<Rightarrow> SimClient \<Rightarrow> bool" where
  "quiet c c' = (\<forall>i b. bit (cell c' i) b \<longrightarrow> i = 224 \<or> bit (cell c i) b)"


text \<open>
  The payload of the string overflow example: a custom solvent whose name is sixteen times
  \<^verbatim>\<open>U+2019\<close>, which is 16 characters for \<^verbatim>\<open>len\<close> and 48 bytes for \<^verbatim>\<open>encode('utf-8')\<close>. The
  other fields are ordinary values.
\<close>

definition overflow_name :: pystr where
  "overflow_name = replicate 16 0x2019"

definition overflow_payload :: InputPayload where
  "overflow_payload =
     \<lparr>tfr = 1, frr = 5, target_volume = 10, temperature = 25, chip_id = BAFFLE,
      manifold_id = SMALL, lab_pressure = 1000, org_solvent_id = CUSTOM,
      operation_mode = AGENTIC, machine_mode = RUN,
      custom_solvent = Some \<lparr>solvent_name = overflow_name, viscosity = 1, sensitivity = 1,
                               molar_volume = 1\<rparr>\<rparr>"

text \<open>
  For the proofs: the writes that \<^verbatim>\<open>write_parameters_to_plc\<close> queues for this payload (lemma
  \<open>queue_overflow\<close>), and the \<^verbatim>\<open>bytearray\<close> that \<^verbatim>\<open>_write_string\<close> hands to \<^verbatim>\<open>db_write\<close> for the
  name (lemma \<open>write_overflow_name\<close>): the slice assignment
  \<^verbatim>\<open>data[2:2+len(value)] = value.encode('utf-8')\<close> replaces 16 bytes by 48, so the 18-byte
  buffer grows to 50 bytes.
\<close>

definition overflow_writes :: "queued list" where
  "overflow_writes =
     [Q_INT ''OPERATION_MODE'' 2, Q_REAL ''r_TFR'' 1, Q_INT ''i_FRR'' 5,
      Q_REAL ''r_TARGET_VOLUME'' 10, Q_REAL ''r_TEMPERATURE'' 25, Q_INT ''i_CHIP_ID'' 0,
      Q_INT ''i_MANIFOLD_ID'' 0, Q_REAL ''r_LAB_PRESSURE'' 1000, Q_INT ''i_ORG_SOLVENT_ID'' 4,
      Q_STRING ''s_CUSTOM_ORG_SOLVENT'' overflow_name 16,
      Q_REAL ''r_VISCOSITY'' 1, Q_REAL ''r_SENSITIVITY'' 1, Q_REAL ''r_MOLAR_VOLUME'' 1]"

definition overflow_data :: "byte list" where
  "overflow_data =
     [16, 16,
      226, 128, 153, 226, 128, 153, 226, 128, 153, 226, 128, 153,
      226, 128, 153, 226, 128, 153, 226, 128, 153, 226, 128, 153,
      226, 128, 153, 226, 128, 153, 226, 128, 153, 226, 128, 153,
      226, 128, 153, 226, 128, 153, 226, 128, 153, 226, 128, 153]"

text \<open>The writes of \<open>pulse_writes\<close> as (mode, command, value) triples.\<close>

definition pulse_bits :: "MachineMode \<Rightarrow> ModeCmds \<Rightarrow> bool \<Rightarrow> (MachineMode \<times> ModeCmds \<times> bool) list" where
  "pulse_bits m k v =
     (if k = START \<and> v
        then map (\<lambda>m'. (m', START, False)) (filter (\<lambda>m'. m' \<noteq> m) [RUN, CLEAN, PRESSURE_TEST])
      else if k = STOP \<and> v then [(m, START, False), (m, PAUSE_PLAY, False), (m, CONFIRM, False)]
      else [])
     @ [(m, k, v)]"

definition bit_tag :: "MachineMode \<times> ModeCmds \<times> bool \<Rightarrow> string \<times> bool" where
  "bit_tag x = (case x of (m, k, v) \<Rightarrow> (cmd_tag (mode_map m) (cmd_map k), v))"

text \<open>What \<^verbatim>\<open>_read_bool\<close> returns for a mode's Start bit.\<close>

definition start_bit :: "SimClient \<Rightarrow> MachineMode \<Rightarrow> bool" where
  "start_bit c m = (fst (plc_read_bool (cmd_tag (mode_map m) ''b_START'') c) = Inr True)"

definition at_most_one_start :: "SimClient \<Rightarrow> bool" where
  "at_most_one_start c = (length (filter (start_bit c) [RUN, CLEAN, PRESSURE_TEST]) \<le> 1)"

text \<open>
  The command operations, and the client states a run of them passes through: the
  state after every transport call (each \<^verbatim>\<open>_write_bool\<close> and each \<^verbatim>\<open>_read_bool\<close>). A
  caller that catches an exception can go on with the next command.
\<close>

datatype command = Pulse MachineMode ModeCmds bool | ClearAll

definition run_command :: "command \<Rightarrow> SimClient \<Rightarrow> (error + unit) \<times> SimClient" where
  "run_command x c = (case x of Pulse m k v \<Rightarrow> pulse_cmd m k v c | ClearAll \<Rightarrow> clear_all_cmd_bits c)"

fun run_commands :: "command list \<Rightarrow> SimClient \<Rightarrow> SimClient" where
  "run_commands [] c = c"
| "run_commands (x # xs) c = run_commands xs (snd (run_command x c))"

fun write_bools_states :: "(string \<times> bool) list \<Rightarrow> SimClient \<Rightarrow> SimClient list" where
  "write_bools_states [] c = []"
| "write_bools_states ((tag, v) # ws) c =
     (case plc_write_bool tag v c of
        (Inl e, c1) \<Rightarrow> [c1]
      | (Inr u, c1) \<Rightarrow> c1 # write_bools_states ws c1)"

fun clear_bits_states :: "string list \<Rightarrow> SimClient \<Rightarrow> SimClient list" where
  "clear_bits_states [] c = []"
| "clear_bits_states (tag # tags) c =
     (case plc_write_bool tag False c of
        (Inl e, c1) \<Rightarrow> [c1]
      | (Inr u, c1) \<Rightarrow>
          c1 # (case plc_read_bool tag c1 of
                  (Inl e, c2) \<Rightarrow> [c2]
                | (Inr actual, c2) \<Rightarrow> c2 # (if actual then [] else clear_bits_states tags c2)))"

definition command_states :: "command \<Rightarrow> SimClient \<Rightarrow> SimClient list" where
  "command_states x c =
     (case x of
        Pulse m k v \<Rightarrow> write_bools_states (pulse_writes m k v) c @ [snd (pulse_cmd m k v c)]
      | ClearAll \<Rightarrow> clear_bits_states all_cmd_tags c)"

fun commands_states :: "command list \<Rightarrow> SimClient \<Rightarrow> SimClient list" where
  "commands_states [] c = []"
| "commands_states (x # xs) c =
     command_states x c @ commands_states xs (snd (run_command x c))"

section \<open>Properties\<close>

subsection \<open>The simulator, cell by cell\<close>

lemma concat_replicate_nth:
  "j < n * length xs \<Longrightarrow> concat (replicate n xs) ! j = xs ! (j mod length xs)"
proof (induction n arbitrary: j)
  case 0
  then show ?case by simp
next
  case (Suc n)
  show ?case
  proof (cases "j < length xs")
    case True
    then show ?thesis by (simp add: nth_append)
  next
    case False
    with Suc.prems have "j - length xs < n * length xs" by simp
    from Suc.IH [OF this] False show ?thesis
      by (simp add: nth_append le_mod_geq)
  qed
qed

lemma length_pad [simp]: "length pad_bytes = 4"
  by (simp add: pad_bytes_def)

lemma length_extend_db [simp]: "length (db (extend_db n c)) = length (db c) + 4 * n"
  by (simp add: extend_db_def length_concat sum_list_replicate)

lemma cell_extend_db [simp]: "cell (extend_db n c) i = cell c i"
proof (cases "i < length (db c)")
  case True
  then show ?thesis by (simp add: cell_def) (simp add: extend_db_def nth_append)
next
  case False
  note ge = this
  show ?thesis
  proof (cases "i < length (db c) + 4 * n")
    case True
    with ge have "i - length (db c) < n * length pad_bytes" by simp
    from concat_replicate_nth [OF this] ge True show ?thesis
      by (simp add: cell_def) (simp add: extend_db_def nth_append)
  next
    case False
    then have "i - length (db c) = (i - (length (db c) + 4 * n)) + n * 4"
      by simp
    then have "(i - length (db c)) mod 4 = ((i - (length (db c) + 4 * n)) + n * 4) mod 4"
      by simp
    also have "\<dots> = (i - (length (db c) + 4 * n)) mod 4"
      by (rule mod_mult_self1)
    finally show ?thesis using False ge by (simp add: cell_def)
  qed
qed

lemma cell_sim_info [simp]: "cell (sim_info ev c) i = cell c i"
  by (simp add: sim_info_def cell_def)

lemma cell_in_range: "i < length (db c) \<Longrightarrow> cell c i = db c ! i"
  by (simp add: cell_def)

lemma fst_db_read: "fst (db_read 9 a sz c) = Inr (map (cell c) [a..<a + sz])"
proof -
  define c1 where "c1 = (if a + sz > length (db c) then extend_db (a + sz - length (db c)) c else c)"
  have len: "a + sz \<le> length (db c1)" by (simp add: c1_def, arith)
  have cells: "cell c1 i = cell c i" for i by (simp add: c1_def)
  have "take sz (drop a (db c1)) = map (cell c1) [a..<a + sz]"
    using len by (auto intro!: nth_equalityI simp: cell_def)
  then show ?thesis
    by (simp add: db_read_def Let_def cells flip: c1_def)
qed

lemma cell_db_read [simp]: "cell (snd (db_read n a sz c)) i = cell c i"
  by (simp add: db_read_def Let_def)

lemma fst_db_write: "fst (db_write 9 a data c) = Inr ()"
  by (simp add: db_write_def Let_def)

lemma cell_db_write:
  "cell (snd (db_write 9 a data c)) i =
     (if a \<le> i \<and> i < a + length data then data ! (i - a) else cell c i)"
proof -
  define c1 where "c1 = (if a + length data > length (db c) then extend_db (a + length data - length (db c)) c else c)"
  have len: "a + length data \<le> length (db c1)" by (simp add: c1_def, arith)
  have cells: "cell c1 j = cell c j" for j by (simp add: c1_def)
  define c2 where "c2 = c1\<lparr>db := take a (db c1) @ data @ drop (a + length data) (db c1)\<rparr>"
  have l2: "length (db c2) = length (db c1)" using len by (simp add: c2_def)
  have "cell c2 i = (if a \<le> i \<and> i < a + length data then data ! (i - a) else cell c1 i)"
    using len l2 by (auto simp: cell_def c2_def nth_append min_def)
  then show ?thesis
    by (simp add: db_write_def Let_def cells flip: c1_def c2_def)
qed


lemma and_exp_bit: "(w AND 2 ^ b \<noteq> 0) = bit (w :: byte) b"
  by (simp add: and_exp_eq_0_iff_not_bit)

lemma fst_db_read_bit: "fst (db_read_bit 9 a b c) = Inr (bit (cell c a) b)"
proof -
  define c1 where "c1 = (if a \<ge> length (db c) then extend_db (a - length (db c) + 1) c else c)"
  have len: "a < length (db c1)" by (simp add: c1_def, arith)
  have cells: "cell c1 i = cell c i" for i by (simp add: c1_def)
  have "db c1 ! a = cell c a" using len cells [of a] by (simp add: cell_def)
  then show ?thesis
    by (simp add: db_read_bit_def Let_def and_exp_bit flip: c1_def)
qed

lemma cell_db_read_bit [simp]: "cell (snd (db_read_bit n a b c)) i = cell c i"
  by (simp add: db_read_bit_def Let_def)

lemma fst_db_write_bit: "b < 8 \<Longrightarrow> fst (db_write_bit 9 a b v c) = Inr ()"
  by (simp add: db_write_bit_def Let_def)

lemma cell_db_write_bit:
  "b < 8 \<Longrightarrow> cell (snd (db_write_bit 9 a b v c)) i =
     (if i = a then (if v then cell c a OR push_bit b 1 else cell c a AND NOT (push_bit b 1))
      else cell c i)"
proof -
  assume b: "b < 8"
  define c1 where "c1 = (if a \<ge> length (db c) then extend_db (a - length (db c) + 1) c else c)"
  have len: "a < length (db c1)" by (simp add: c1_def, arith)
  have cells: "cell c1 i = cell c i" for i by (simp add: c1_def)
  have cur: "db c1 ! a = cell c a" using len cells [of a] by (simp add: cell_def)
  have "cell (c1\<lparr>db := (db c1)[a := w]\<rparr>) i = (if i = a then w else cell c1 i)" for w
    using len by (auto simp: cell_def)
  then show ?thesis using b
    by (simp add: db_write_bit_def Let_def cur cells flip: c1_def)
qed

subsection \<open>Command tags\<close>

lemma bool_addr_cmd:
  "bool_addr (cmd_tag (mode_map m) (cmd_map k)) = Inr (9, cmd_byte m, cmd_bit k)"
  by (cases m; cases k; hypsubst_thin; code_simp)

lemma plc_write_bool_addr:
  "plc_write_bool tag v c =
     (case bool_addr tag of Inl e \<Rightarrow> (Inl e, c) | Inr (n, a, b) \<Rightarrow> db_write_bit n a b v c)"
  by (simp add: plc_write_bool_def bool_addr_def split: sum.splits)

lemma plc_read_bool_addr:
  "plc_read_bool tag c =
     (case bool_addr tag of Inl e \<Rightarrow> (Inl e, c) | Inr (n, a, b) \<Rightarrow> db_read_bit n a b c)"
  by (simp add: plc_read_bool_def bool_addr_def split: sum.splits)

lemma cmd_bit_less [simp]: "cmd_bit k < 8"
  by (cases k) (simp_all add: cmd_bit_def)

lemma cmd_byte_inj [simp]: "(cmd_byte m = cmd_byte m') = (m = m')"
  by (cases m; cases m') (simp_all add: cmd_byte_def)

lemma plc_write_bool_cmd:
  "plc_write_bool (cmd_tag (mode_map m) (cmd_map k)) v c =
     db_write_bit 9 (cmd_byte m) (cmd_bit k) v c"
  by (simp add: plc_write_bool_addr bool_addr_cmd)

lemma plc_read_bool_cmd:
  "plc_read_bool (cmd_tag (mode_map m) (cmd_map k)) c = db_read_bit 9 (cmd_byte m) (cmd_bit k) c"
  by (simp add: plc_read_bool_addr bool_addr_cmd)

lemma cell_plc_read_bool [simp]: "cell (snd (plc_read_bool tag c)) i = cell c i"
  by (simp add: plc_read_bool_addr split: sum.splits prod.splits)

lemma fst_write_cmd [simp]:
  "fst (plc_write_bool (cmd_tag (mode_map m) (cmd_map k)) v c) = Inr ()"
  by (simp add: plc_write_bool_cmd fst_db_write_bit)

lemma fst_read_cmd:
  "fst (plc_read_bool (cmd_tag (mode_map m) (cmd_map k)) c) =
     Inr (bit (cell c (cmd_byte m)) (cmd_bit k))"
  by (simp add: plc_read_bool_cmd fst_db_read_bit)

lemma bit_write_cmd:
  "bit (cell (snd (plc_write_bool (cmd_tag (mode_map m') (cmd_map k')) v c)) (cmd_byte m)) b =
     (if m = m' \<and> b = cmd_bit k' then v else bit (cell c (cmd_byte m)) b)"
  by (auto simp: plc_write_bool_cmd cell_db_write_bit bit_simps dest: bit_imp_le_length)

lemma pulse_writes_bits: "pulse_writes m k v = map bit_tag (pulse_bits m k v)"
  by (cases m) (auto simp: pulse_writes_def pulse_bits_def bit_tag_def mode_map_def cmd_map_def cmd_tag_def)

subsection \<open>Stop cascade\<close>

text \<open>
  What \<^verbatim>\<open>_read_bool\<close> returns after \<^verbatim>\<open>pulse_cmd(mode, STOP, True)\<close>, from any client state.
  The tags \<^verbatim>\<open>b_PAUSE_PLAY\<close> and \<^verbatim>\<open>b_CONFIRM\<close> resolve to the same bit, so the third
  conjunct says no more than the second.
\<close>

lemma stop_read_back:
  "fst (pulse_cmd m STOP True c) = Inr () \<and>
   (let c' = snd (pulse_cmd m STOP True c)
    in fst (plc_read_bool (cmd_tag (mode_map m) ''b_START'') c') = Inr False
     \<and> fst (plc_read_bool (cmd_tag (mode_map m) ''b_PAUSE_PLAY'') c') = Inr False
     \<and> fst (plc_read_bool (cmd_tag (mode_map m) ''b_CONFIRM'') c') = Inr False
     \<and> fst (plc_read_bool (cmd_tag (mode_map m) ''b_STOP'') c') = Inr True)"
proof -
  have tags: "''b_START'' = cmd_map START" "''b_PAUSE_PLAY'' = cmd_map PAUSE_PLAY"
    "''b_CONFIRM'' = cmd_map CONFIRM" "''b_STOP'' = cmd_map STOP"
    by (simp_all add: cmd_map_def)
  show ?thesis
    unfolding tags
    by (simp add: pulse_cmd_def pulse_writes_bits pulse_bits_def bit_tag_def split_beta
        fst_read_cmd bit_write_cmd Let_def cmd_bit_def)
qed

subsection \<open>Zero extension of the simulator\<close>

text \<open>
  C4. The region starts as 219 zero bytes, but an extension appends copies of the four
  bytes \<^verbatim>\<open>\\x00\<close> of the escaped literal, not zero bytes: on a freshly connected simulator
  the never-written span 219..222 reads \<^verbatim>\<open>5c 78 30 30\<close>, and the never-written command bit
  \<^verbatim>\<open>COMMANDS_CLEAN.b_STOP\<close> reads true.
\<close>

theorem sim_extension_not_zero:
  "db (sim_connect (sim_init dbg)) = replicate 219 0
   \<and> fst (db_read 9 219 4 (sim_connect (sim_init dbg))) = Inr [92, 120, 48, 48]
   \<and> fst (plc_read_bool ''COMMANDS_CLEAN.b_STOP'' (sim_connect (sim_init dbg))) = Inr True"
proof -
  have "''COMMANDS_CLEAN.b_STOP'' = cmd_tag (mode_map CLEAN) (cmd_map STOP)"
    by (simp add: cmd_tag_def mode_map_def cmd_map_def)
  then have "fst (plc_read_bool ''COMMANDS_CLEAN.b_STOP'' (sim_connect (sim_init dbg))) = Inr True"
    by (simp add: fst_read_cmd cell_def sim_connect_def sim_init_def pad_bytes_def cmd_byte_def
        cmd_bit_def)
  moreover have "fst (db_read 9 219 4 (sim_connect (sim_init dbg))) = Inr [92, 120, 48, 48]"
    by (simp add: fst_db_read cell_def sim_connect_def sim_init_def pad_bytes_def upt_rec)
  ultimately show ?thesis
    by (simp add: sim_connect_def sim_init_def)
qed

subsection \<open>Start exclusivity\<close>

lemma start_bit_cell: "start_bit c m = bit (cell c (cmd_byte m)) 0"
proof -
  have "''b_START'' = cmd_map START" by (simp add: cmd_map_def)
  then show ?thesis by (simp add: start_bit_def fst_read_cmd cmd_bit_def)
qed

lemma start_bit_write:
  "start_bit (snd (plc_write_bool (cmd_tag (mode_map m') (cmd_map k')) v c)) m =
     (if m = m' \<and> cmd_bit k' = 0 then v else start_bit c m)"
  by (auto simp: start_bit_cell bit_write_cmd)

lemma start_bit_read [simp]: "start_bit (snd (plc_read_bool tag c)) m = start_bit c m"
  by (simp add: start_bit_cell)

lemma amo_iff:
  "at_most_one_start c \<longleftrightarrow>
     \<not> (start_bit c RUN \<and> start_bit c CLEAN) \<and> \<not> (start_bit c RUN \<and> start_bit c PRESSURE_TEST)
     \<and> \<not> (start_bit c CLEAN \<and> start_bit c PRESSURE_TEST)"
  by (auto simp: at_most_one_start_def)

lemma amo_mono: "at_most_one_start c \<Longrightarrow> (\<And>m. start_bit s m \<Longrightarrow> start_bit c m) \<Longrightarrow> at_most_one_start s"
  by (auto simp: amo_iff)

lemma amo_init: "at_most_one_start (sim_connect (sim_init dbg))"
  by (simp add: amo_iff start_bit_cell cell_def sim_connect_def sim_init_def pad_bytes_def cmd_byte_def)

lemma fst_write_bools_bits [simp]: "fst (write_bools (map bit_tag bs) c) = Inr ()"
  by (induction bs arbitrary: c) (auto simp: bit_tag_def split_beta)

lemma snd_pulse_cmd:
  "snd (pulse_cmd m k v c) =
     snd (plc_read_bool (cmd_tag (mode_map m) (cmd_map k)) (snd (write_bools (pulse_writes m k v) c)))"
  by (simp add: pulse_cmd_def Let_def split_beta pulse_writes_bits fst_read_cmd)

lemma fst_pulse_cmd: "fst (pulse_cmd m k v c) = Inr ()"
proof -
  have "bit (cell (snd (write_bools (map bit_tag (pulse_bits m k v)) c)) (cmd_byte m)) (cmd_bit k) = v"
    by (cases "k = START \<and> v"; cases "k = STOP \<and> v")
       (auto simp: pulse_bits_def bit_tag_def split_beta bit_write_cmd)
  then show ?thesis
    by (simp add: pulse_cmd_def Let_def split_beta pulse_writes_bits fst_read_cmd)
qed

lemma amo_write_false:
  "at_most_one_start c \<Longrightarrow>
   at_most_one_start (snd (plc_write_bool (cmd_tag (mode_map m) (cmd_map k)) False c))"
  by (erule amo_mono) (simp add: start_bit_write split: if_splits)

lemma amo_write_other:
  "at_most_one_start c \<Longrightarrow> cmd_bit k \<noteq> 0 \<Longrightarrow>
   at_most_one_start (snd (plc_write_bool (cmd_tag (mode_map m) (cmd_map k)) v c))"
  by (erule amo_mono) (simp add: start_bit_write split: if_splits)

lemma amo_pulse_states:
  assumes "at_most_one_start c"
  shows "\<forall>s \<in> set (command_states (Pulse m k v) c). at_most_one_start s"
proof -
  have w: "\<forall>s \<in> set (write_bools_states (map bit_tag (pulse_bits m k v)) c). at_most_one_start s"
    and f: "at_most_one_start (snd (write_bools (map bit_tag (pulse_bits m k v)) c))"
    using assms
    by (cases m; cases k; cases v;
        simp add: pulse_bits_def bit_tag_def split_beta amo_iff start_bit_write cmd_bit_def)+
  from f have "at_most_one_start (snd (pulse_cmd m k v c))"
    by (simp add: snd_pulse_cmd pulse_writes_bits amo_iff)
  with w show ?thesis
    by (simp add: command_states_def pulse_writes_bits)
qed

lemma all_cmd_tags_pairs:
  "all_cmd_tags = map (\<lambda>p. cmd_tag (mode_map (fst p)) (cmd_map (snd p)))
     [(RUN, START), (RUN, PAUSE_PLAY), (RUN, CONFIRM), (RUN, STOP),
      (CLEAN, START), (CLEAN, PAUSE_PLAY), (CLEAN, CONFIRM), (CLEAN, STOP),
      (PRESSURE_TEST, START), (PRESSURE_TEST, PAUSE_PLAY), (PRESSURE_TEST, CONFIRM),
      (PRESSURE_TEST, STOP)]"
  by (simp add: all_cmd_tags_def cmd_tag_def mode_map_def cmd_map_def)

lemma amo_clear_bits:
  "at_most_one_start c \<Longrightarrow>
   (\<forall>s \<in> set (clear_bits_states (map (\<lambda>p. cmd_tag (mode_map (fst p)) (cmd_map (snd p))) ps) c).
      at_most_one_start s)
   \<and> at_most_one_start (snd (clear_bits (map (\<lambda>p. cmd_tag (mode_map (fst p)) (cmd_map (snd p))) ps) c))"
proof (induction ps arbitrary: c)
  case Nil
  then show ?case by simp
next
  case (Cons p ps)
  let ?tag = "cmd_tag (mode_map (fst p)) (cmd_map (snd p))"
  let ?c1 = "snd (plc_write_bool ?tag False c)"
  let ?c2 = "snd (plc_read_bool ?tag ?c1)"
  have a1: "at_most_one_start ?c1" using Cons.prems by (rule amo_write_false)
  then have a2: "at_most_one_start ?c2" by (simp add: amo_iff)
  have rd: "fst (plc_read_bool ?tag ?c1) = Inr False"
    by (simp add: fst_read_cmd bit_write_cmd)
  from Cons.IH [OF a2] a1 a2 rd show ?case
    by (simp add: split_beta)
qed

lemma amo_command:
  assumes "at_most_one_start c"
  shows "(\<forall>s \<in> set (command_states x c). at_most_one_start s)
         \<and> at_most_one_start (snd (run_command x c))"
proof (cases x)
  case (Pulse m k v)
  from amo_pulse_states [OF assms, of m k v] show ?thesis
    by (simp add: Pulse run_command_def command_states_def)
next
  case ClearAll
  show ?thesis
    unfolding ClearAll run_command_def command_states_def clear_all_cmd_bits_def
      all_cmd_tags_pairs command.case
    by (rule amo_clear_bits [OF assms])
qed

lemma amo_commands:
  "at_most_one_start c \<Longrightarrow>
   (\<forall>s \<in> set (commands_states xs c). at_most_one_start s) \<and> at_most_one_start (run_commands xs c)"
proof (induction xs arbitrary: c)
  case Nil
  then show ?case by simp
next
  case (Cons x xs)
  from amo_command [OF Cons.prems, of x] Cons.IH [of "snd (run_command x c)"]
  show ?case by auto
qed

lemma excl_pair:
  assumes "m1 \<noteq> m2"
  shows "fst (pulse_cmd m1 START True c) = Inr () \<and>
   (let r = pulse_cmd m2 START True (snd (pulse_cmd m1 START True c))
    in fst r = Inr ()
     \<and> fst (plc_read_bool (cmd_tag (mode_map m1) ''b_START'') (snd r)) = Inr False
     \<and> fst (plc_read_bool (cmd_tag (mode_map m2) ''b_START'') (snd r)) = Inr True)"
proof -
  have tag: "''b_START'' = cmd_map START" by (simp add: cmd_map_def)
  show ?thesis unfolding tag using assms
    by (cases m1; cases m2)
       (simp_all add: fst_pulse_cmd snd_pulse_cmd Let_def fst_read_cmd pulse_writes_bits
          pulse_bits_def bit_tag_def split_beta bit_write_cmd cmd_bit_def)
qed

text \<open>
  C3. For distinct modes \<open>m1\<close> and \<open>m2\<close>, from any client state, \<^verbatim>\<open>pulse_cmd(m1, START, True)\<close>
  followed by \<^verbatim>\<open>pulse_cmd(m2, START, True)\<close> both return normally and leave \<open>m1\<close>'s Start bit
  reading false and \<open>m2\<close>'s reading true. At most one mode has its Start bit true in every
  state that a sequence of command operations (\<^verbatim>\<open>pulse_cmd\<close> with any arguments,
  \<^verbatim>\<open>clear_all_cmd_bits\<close>) passes through, after each single transport call, when that
  held before the sequence; it holds on a freshly connected simulator.
\<close>

theorem start_exclusivity:
  "(m1 \<noteq> m2 \<longrightarrow>
      fst (pulse_cmd m1 START True c) = Inr () \<and>
      (let r = pulse_cmd m2 START True (snd (pulse_cmd m1 START True c))
       in fst r = Inr ()
        \<and> fst (plc_read_bool (cmd_tag (mode_map m1) ''b_START'') (snd r)) = Inr False
        \<and> fst (plc_read_bool (cmd_tag (mode_map m2) ''b_START'') (snd r)) = Inr True))
   \<and> (at_most_one_start c \<longrightarrow>
        (\<forall>s \<in> set (commands_states xs c). at_most_one_start s)
        \<and> at_most_one_start (run_commands xs c))
   \<and> at_most_one_start (sim_connect (sim_init dbg))"
  using excl_pair [of m1 m2 c] amo_commands [of c xs] amo_init [of dbg] by blast

theorem start_exclusivity_witness:
  "RUN \<noteq> CLEAN
   \<and> at_most_one_start (sim_connect (sim_init False))
   \<and> commands_states [Pulse RUN START True, Pulse CLEAN START True]
        (sim_connect (sim_init False)) \<noteq> []
   \<and> (let r = pulse_cmd CLEAN START True (snd (pulse_cmd RUN START True (sim_connect (sim_init False))))
      in fst (plc_read_bool (cmd_tag (mode_map RUN) ''b_START'') (snd r)) = Inr False
       \<and> fst (plc_read_bool (cmd_tag (mode_map CLEAN) ''b_START'') (snd r)) = Inr True)
   \<and> list_all at_most_one_start
        (commands_states [Pulse RUN START True, Pulse CLEAN START True]
           (sim_connect (sim_init False)))"
  using start_exclusivity [of RUN CLEAN "sim_connect (sim_init False)"
      "[Pulse RUN START True, Pulse CLEAN START True]" False]
  by (simp add: command_states_def Let_def list_all_iff)

subsection \<open>Read-back of command writes\<close>

lemma debug_sim_info [simp]: "debug (sim_info ev c) = debug c"
  by (simp add: sim_info_def)

lemma debug_extend_db [simp]: "debug (extend_db n c) = debug c"
  by (simp add: extend_db_def)

lemma sim_log_extend_db [simp]: "sim_log (extend_db n c) = sim_log c"
  by (simp add: extend_db_def)

lemma debug_db_write_bit [simp]: "debug (snd (db_write_bit n a b v c)) = debug c"
  by (simp add: db_write_bit_def Let_def)

lemma debug_db_read_bit [simp]: "debug (snd (db_read_bit n a b c)) = debug c"
  by (simp add: db_read_bit_def Let_def)

lemma log_db_write_bit:
  "debug c \<Longrightarrow> b < 8 \<Longrightarrow>
   sim_log (snd (db_write_bit 9 a b v c)) = sim_log c @ [SimWriteBit 9 a b v]"
  by (simp add: db_write_bit_def Let_def sim_info_def)

lemma log_db_read_bit:
  "debug c \<Longrightarrow>
   sim_log (snd (db_read_bit 9 a b c)) = sim_log c @ [SimReadBit 9 a b (bit (cell c a) b)]"
proof -
  assume d: "debug c"
  define c1 where "c1 = (if a \<ge> length (db c) then extend_db (a - length (db c) + 1) c else c)"
  have len: "a < length (db c1)" by (simp add: c1_def, arith)
  have cells: "cell c1 i = cell c i" for i by (simp add: c1_def)
  have cur: "db c1 ! a = cell c a" using len cells [of a] by (simp add: cell_def)
  have "debug c1" "sim_log c1 = sim_log c" using d by (simp_all add: c1_def)
  then show ?thesis
    by (simp add: db_read_bit_def Let_def sim_info_def cur and_exp_bit flip: c1_def)
qed

text \<open>
  C6. \<^verbatim>\<open>pulse_cmd\<close> reads back the requested bit only. On a freshly connected simulator with
  \<^verbatim>\<open>PLC_SIM_DEBUG\<close> set, \<^verbatim>\<open>pulse_cmd(CLEAN, START, True)\<close> makes these transport calls: the
  clears of the Start bits of RUN and PRESSURE_TEST, the write of the Start bit of CLEAN,
  and one read, of the Start bit of CLEAN. Neither cascade clear is read back.
\<close>

theorem pulse_cmd_reads_back_target_only:
  "sim_log (snd (pulse_cmd CLEAN START True (sim_connect (sim_init True)))) =
     [SimWriteBit 9 258 0 False, SimWriteBit 9 262 0 False, SimWriteBit 9 260 0 True,
      SimReadBit 9 260 0 True]"
proof -
  have d: "debug (sim_connect (sim_init True))" "sim_log (sim_connect (sim_init True)) = []"
    by (simp_all add: sim_connect_def sim_init_def)
  show ?thesis
    by (simp add: snd_pulse_cmd pulse_writes_bits pulse_bits_def bit_tag_def split_beta
        plc_write_bool_cmd plc_read_bool_cmd log_db_write_bit log_db_read_bit d
        cell_db_write_bit fst_db_write_bit cmd_byte_def cmd_bit_def bit_simps)
qed

subsection \<open>Stop and the Confirm bit\<close>

text \<open>
  C2. The mapping declares \<^verbatim>\<open>b_CONFIRM\<close> at \<^verbatim>\<open>258.2\<close>, but \<^verbatim>\<open>int((258.2 % 1) * 10)\<close> is 1 in
  binary64, so \<^verbatim>\<open>_write_bool\<close> and \<^verbatim>\<open>_read_bool\<close> resolve \<^verbatim>\<open>b_CONFIRM\<close> to bit 1, the bit of
  \<^verbatim>\<open>b_PAUSE_PLAY\<close>. From a simulator whose byte 258 is \<^verbatim>\<open>0x07\<close> (bits 0, 1 and 2 set: Start,
  PausePlay and the declared Confirm bit), \<^verbatim>\<open>pulse_cmd(RUN, STOP, True)\<close> returns normally and
  leaves the byte at \<^verbatim>\<open>0x0C\<close>: the Stop bit is set, and bit 2, the declared Confirm bit, is
  still set.
\<close>

theorem stop_leaves_declared_confirm_bit:
  "bool_addr ''COMMANDS_RUN.b_PAUSE_PLAY'' = Inr (9, 258, 1)
   \<and> bool_addr ''COMMANDS_RUN.b_CONFIRM'' = Inr (9, 258, 1)
   \<and> (let c = snd (db_write 9 258 [7] (sim_connect (sim_init False)));
          c' = snd (pulse_cmd RUN STOP True c)
      in fst (db_read 9 258 1 c) = Inr [7]
       \<and> fst (pulse_cmd RUN STOP True c) = Inr ()
       \<and> fst (db_read 9 258 1 c') = Inr [12]
       \<and> fst (db_read_bit 9 258 2 c') = Inr True)"
proof -
  have a: "bool_addr ''COMMANDS_RUN.b_PAUSE_PLAY'' = Inr (9, 258, 1)"
    using bool_addr_cmd [of RUN PAUSE_PLAY]
    by (simp add: cmd_tag_def mode_map_def cmd_map_def cmd_byte_def cmd_bit_def)
  have b: "bool_addr ''COMMANDS_RUN.b_CONFIRM'' = Inr (9, 258, 1)"
    using bool_addr_cmd [of RUN CONFIRM]
    by (simp add: cmd_tag_def mode_map_def cmd_map_def cmd_byte_def cmd_bit_def)
  have u: "[258..<259] = [258]" by (simp add: upt_rec)
  have c: "let c = snd (db_write 9 258 [7] (sim_connect (sim_init False)));
          c' = snd (pulse_cmd RUN STOP True c)
      in fst (db_read 9 258 1 c) = Inr [7]
       \<and> fst (pulse_cmd RUN STOP True c) = Inr ()
       \<and> fst (db_read 9 258 1 c') = Inr [12]
       \<and> fst (db_read_bit 9 258 2 c') = Inr True"
    by (simp add: Let_def fst_pulse_cmd snd_pulse_cmd fst_db_read fst_db_read_bit u
        pulse_writes_bits pulse_bits_def bit_tag_def split_beta plc_write_bool_cmd
        cell_db_write_bit fst_db_write_bit cell_db_write cmd_byte_def cmd_bit_def)
  from a b c show ?thesis by simp
qed

subsection \<open>The INT codec\<close>

lemma uint_byte_of_int: "uint (of_int x :: byte) = x mod 256"
  by (simp add: uint_word_of_int)

lemma be_int_2: "be_int [a, b] = uint a * 256 + uint b"
  by (simp add: be_int_def)

lemma mod_65536_signed:
  assumes "- 32768 \<le> (v::int)" "v \<le> 32767"
  shows "v mod 65536 = (if v < 0 then v + 65536 else v)"
proof (cases "v < 0")
  case True
  have "(v + 65536) mod 65536 = v + 65536"
    using assms True by (intro mod_pos_pos_trivial) simp_all
  then show ?thesis using True by simp
next
  case False
  then show ?thesis using assms by simp
qed

lemma split_256:
  assumes "0 \<le> (u::int)" "u < 65536"
  shows "(u div 256) mod 256 * 256 + u mod 256 = u"
proof -
  have "u = u div 256 * 256 + u mod 256" by simp
  moreover have "0 \<le> u mod 256" by simp
  ultimately have "u div 256 < 256" using assms by linarith
  moreover have "0 \<le> u div 256" using assms by simp
  ultimately have "(u div 256) mod 256 = u div 256" by simp
  then show ?thesis by simp
qed

lemma unpack_pack_h:
  assumes "- 32768 \<le> v" "v \<le> 32767"
  shows "unpack_h [of_int ((v mod 65536) div 256), of_int (v mod 65536)] = Inr v"
proof -
  have u: "0 \<le> v mod 65536" "v mod 65536 < 65536" by simp_all
  have "be_int [of_int ((v mod 65536) div 256) :: byte, of_int (v mod 65536)] = v mod 65536"
    using split_256 [OF u] by (simp add: be_int_2 uint_byte_of_int mod_mod_cancel)
  then show ?thesis
    using assms by (simp add: unpack_h_def mod_65536_signed)
qed

lemma find_tag_mem:
  "find_tag ss tag = Some g \<Longrightarrow> \<exists>s \<in> set ss. (tag, g) \<in> set (section_of s)"
  by (induction ss) (auto split: option.splits dest: map_of_SomeD)

subsection \<open>Tags of the mapping\<close>

lemma section_OPERATION:
  "section_of ''OPERATION'' =
     [(''OPERATION_MODE'', entry (IntStart 198) T_INT),
      (''MACHINE_MODE'', entry (IntStart 200) T_INT),
      (''CRUNCH_VALID'', entry (float_lit 202) T_BOOL)]"
  by (simp add: section_of_def DB_CONFIG_def)

lemma section_INPUTS:
  "section_of ''INPUTS'' =
     [(''r_TFR'', entry (IntStart 204) T_REAL),
      (''i_FRR'', entry (IntStart 208) T_INT),
      (''r_TARGET_VOLUME'', entry (IntStart 210) T_REAL),
      (''r_TEMPERATURE'', entry (IntStart 214) T_REAL),
      (''i_CHIP_ID'', entry (IntStart 218) T_INT),
      (''i_MANIFOLD_ID'', entry (IntStart 220) T_INT),
      (''i_ORG_SOLVENT_ID'', entry (IntStart 222) T_INT),
      (''s_CUSTOM_ORG_SOLVENT'', string_entry (IntStart 224) 16),
      (''r_LAB_PRESSURE'', entry (IntStart 242) T_REAL)]"
  by (simp add: section_of_def DB_CONFIG_def)

lemma section_CUSTOM_SOLVENT:
  "section_of ''CUSTOM_SOLVENT'' =
     [(''r_VISCOSITY'', entry (IntStart 246) T_REAL),
      (''r_SENSITIVITY'', entry (IntStart 250) T_REAL),
      (''r_MOLAR_VOLUME'', entry (IntStart 254) T_REAL)]"
  by (simp add: section_of_def DB_CONFIG_def)

lemma int_tag_cfg:
  assumes "find_tag [''OPERATION'', ''INPUTS''] tag = Some g" "cfg_type g = T_INT"
  shows "cfg_db_number g = 9 \<and> cfg_start g \<in> IntStart ` {198, 200, 208, 218, 220, 222}"
  using find_tag_mem [OF assms(1)] assms(2)
  by (auto simp: section_OPERATION section_INPUTS entry_def string_entry_def)

lemma upt_2: "[n..<n + 2] = [n, n + 1]"
  by (simp add: upt_rec [of n] upt_rec [of "Suc n"])

lemma upt_4: "[n..<n + 4] = [n, n + 1, n + 2, n + 3]"
  by (simp add: upt_rec [of n] upt_rec [of "Suc n"] upt_rec [of "Suc (Suc n)"]
      upt_rec [of "Suc (Suc (Suc n))"])

lemma client_rw_int [simp]:
  "client_write n (IntStart a) data c = db_write n a data c"
  "client_read n (IntStart a) sz c = db_read n a sz c"
  by (simp_all add: client_write_def client_read_def)

lemma pack_h_ok: "- 32768 \<le> v \<Longrightarrow> v \<le> 32767 \<Longrightarrow>
  pack_h v = Inr [of_int ((v mod 65536) div 256), of_int (v mod 65536)]"
  by (simp add: pack_h_def Let_def)

lemma int_write_read:
  assumes "find_tag [''OPERATION'', ''INPUTS''] tag = Some g" "cfg_type g = T_INT"
    "- 32768 \<le> v" "v \<le> 32767"
  shows "fst (plc_write_int tag v c) = Inr ()
       \<and> fst (plc_read_int tag (snd (plc_write_int tag v c))) = Inr v"
proof -
  from int_tag_cfg [OF assms(1,2)] obtain a where g: "cfg_db_number g = 9" "cfg_start g = IntStart a"
    by auto
  show ?thesis
    using unpack_pack_h [OF assms(3,4)]
    by (simp add: plc_write_int_def plc_read_int_def assms(1) g pack_h_ok [OF assms(3,4)]
        fst_db_write split_beta fst_db_read upt_2 cell_db_write del: find_tag.simps)
qed

lemma int_write_range:
  assumes "v < - 32768 \<or> 32767 < v"
  shows "\<exists>e. plc_write_int tag v c = (Inl e, c)"
    and "find_tag [''OPERATION'', ''INPUTS''] tag \<noteq> None \<Longrightarrow> plc_write_int tag v c = (Inl StructError, c)"
  using assms by (auto simp: plc_write_int_def pack_h_def simp del: find_tag.simps split: option.splits)

lemma find_i_FRR: "find_tag [''OPERATION'', ''INPUTS''] ''i_FRR'' = Some (entry (IntStart 208) T_INT)"
  by (simp add: section_OPERATION section_INPUTS)

text \<open>
  C8. For every integer \<open>v\<close> in \<open>[-32768, 32767]\<close> and every tag declared INT, writing \<open>v\<close>
  and reading the tag back returns \<open>v\<close>, and so does unpacking the two packed bytes. An
  integer outside the range (40000, say) is not packed: \<^verbatim>\<open>struct.pack\<close> raises (Python's
  \<^verbatim>\<open>struct.error\<close>), \<^verbatim>\<open>_write_int\<close> raises with it and the client is left as it was.
\<close>

theorem int_round_trip:
  "(find_tag [''OPERATION'', ''INPUTS''] tag = Some g \<and> cfg_type g = T_INT
      \<and> - 32768 \<le> v \<and> v \<le> 32767 \<longrightarrow>
        fst (plc_write_int tag v c) = Inr ()
        \<and> fst (plc_read_int tag (snd (plc_write_int tag v c))) = Inr v)
   \<and> (- 32768 \<le> v \<and> v \<le> 32767 \<longrightarrow>
        (\<exists>bs. pack_h v = Inr bs \<and> length bs = 2 \<and> unpack_h bs = Inr v))
   \<and> (v < - 32768 \<or> 32767 < v \<longrightarrow>
        pack_h v = Inl StructError
        \<and> (\<exists>e. plc_write_int tag v c = (Inl e, c))
        \<and> (find_tag [''OPERATION'', ''INPUTS''] tag = Some g \<longrightarrow>
             plc_write_int tag v c = (Inl StructError, c)))"
proof (intro conjI impI)
  assume "v < - 32768 \<or> 32767 < v"
  then show "pack_h v = Inl StructError" by (auto simp: pack_h_def)
qed (use int_write_read [of tag g v c] int_write_range [of v tag c] unpack_pack_h [of v]
      in \<open>auto simp: pack_h_ok\<close>)

theorem int_round_trip_witness:
  "find_tag [''OPERATION'', ''INPUTS''] ''i_FRR'' = Some (entry (IntStart 208) T_INT)
   \<and> fst (plc_read_int ''i_FRR''
            (snd (plc_write_int ''i_FRR'' (- 32768) (sim_connect (sim_init False))))) = Inr (- 32768)
   \<and> pack_h 40000 = Inl StructError
   \<and> plc_write_int ''i_FRR'' 40000 (sim_connect (sim_init False))
       = (Inl StructError, sim_connect (sim_init False))"
  using int_round_trip [where tag = "''i_FRR''" and g = "entry (IntStart 208) T_INT"
      and v = "- 32768" and c = "sim_connect (sim_init False)"]
    int_round_trip [where tag = "''i_FRR''" and g = "entry (IntStart 208) T_INT"
      and v = 40000 and c = "sim_connect (sim_init False)"]
  by (simp add: find_i_FRR entry_def pack_h_def del: find_tag.simps)

subsection \<open>Queueing a string\<close>

text \<open>
  C7. \<^verbatim>\<open>PLCTransaction.write_string\<close> with \<^verbatim>\<open>len(value) > max_len\<close> raises at once and
  leaves the transaction as it was: nothing is queued and the client (its region and its
  log of transport calls) is untouched. With \<^verbatim>\<open>len(value) <= max_len\<close> the write is appended
  to the queue, and the client is untouched as well: queueing does no transport call.
\<close>

theorem write_string_fail_fast:
  "(int (length v) > max_len \<longrightarrow>
      tx_write_string tag v max_len tx = (Inl (ValueError (StringTooLong v max_len)), tx))
   \<and> (int (length v) \<le> max_len \<longrightarrow>
        fst (tx_write_string tag v max_len tx) = Inr ()
        \<and> writes (snd (tx_write_string tag v max_len tx)) = writes tx @ [Q_STRING tag v max_len]
        \<and> plc (snd (tx_write_string tag v max_len tx)) = plc tx
        \<and> committed (snd (tx_write_string tag v max_len tx)) = committed tx)"
  by (simp add: tx_write_string_def)

theorem write_string_fail_fast_witness:
  "int (length (replicate 17 (65::int))) > 16
   \<and> tx_write_string ''s_CUSTOM_ORG_SOLVENT'' (replicate 17 65) 16
        (transaction_init (sim_connect (sim_init True)))
      = (Inl (ValueError (StringTooLong (replicate 17 65) 16)),
         transaction_init (sim_connect (sim_init True)))
   \<and> int (length [69, 116, 79, 72 :: int]) \<le> 16
   \<and> writes (snd (tx_write_string ''s_CUSTOM_ORG_SOLVENT'' [69, 116, 79, 72] 16
        (transaction_init (sim_connect (sim_init True)))))
      = [Q_STRING ''s_CUSTOM_ORG_SOLVENT'' [69, 116, 79, 72] 16]
   \<and> sim_log (plc (snd (tx_write_string ''s_CUSTOM_ORG_SOLVENT'' [69, 116, 79, 72] 16
        (transaction_init (sim_connect (sim_init True)))))) = []"
  using write_string_fail_fast [where v = "replicate 17 65" and max_len = 16
      and tag = "''s_CUSTOM_ORG_SOLVENT''" and tx = "transaction_init (sim_connect (sim_init True))"]
    write_string_fail_fast [where v = "[69, 116, 79, 72]" and max_len = 16
      and tag = "''s_CUSTOM_ORG_SOLVENT''" and tx = "transaction_init (sim_connect (sim_init True))"]
  by (simp add: transaction_init_def sim_connect_def sim_init_def)

subsection \<open>Committing twice\<close>

lemma commit_committed: "fst (commit tx) = Inr () \<Longrightarrow> committed (snd (commit tx))"
  by (auto simp: commit_def split: if_splits prod.splits sum.splits)

lemma commit_int_ok:
  "fst (commit (tx_write_int ''i_FRR'' 5 (transaction_init c))) = Inr ()"
  using int_write_read [of "''i_FRR''" "entry (IntStart 208) T_INT" 5 c]
  by (simp add: find_i_FRR entry_def commit_def attempt_def tx_write_int_def transaction_init_def
      execute_write_def verify_write_def split_beta del: find_tag.simps)

text \<open>
  C10. When \<^verbatim>\<open>commit()\<close> has returned normally, a second \<^verbatim>\<open>commit()\<close> on the same
  transaction returns at once: the transaction and its client, with its region and its
  log of transport calls, are exactly as the first call left them.
\<close>

theorem commit_idempotent:
  "fst (commit tx) = Inr () \<longrightarrow> commit (snd (commit tx)) = (Inr (), snd (commit tx))"
  using commit_committed [of tx] by (simp add: commit_def [of "snd (commit tx)"])

theorem commit_idempotent_witness:
  "fst (commit (tx_write_int ''i_FRR'' 5 (transaction_init (sim_connect (sim_init True))))) = Inr ()
   \<and> commit (snd (commit (tx_write_int ''i_FRR'' 5 (transaction_init (sim_connect (sim_init True))))))
       = (Inr (), snd (commit (tx_write_int ''i_FRR'' 5 (transaction_init (sim_connect (sim_init True))))))"
  using commit_idempotent [of "tx_write_int ''i_FRR'' 5 (transaction_init (sim_connect (sim_init True)))"]
  by (simp add: commit_int_ok)

subsection \<open>Byte-span methods, cell by cell\<close>

lemma py_float_0 [simp]: "py_float 0 = 0"
  by (simp add: py_float_def round_bin_def)

lemma float32_0 [simp]: "float32 0 = 0"
  by (simp add: float32_def round_bin_def)

lemma pack_f_0 [simp]: "pack_f 0 = Inr [0, 0, 0, 0]"
  by (simp add: pack_f_def float32_bits_def be_bytes4_def pow2_def)

lemma length_pack_f: "pack_f x = Inr bs \<Longrightarrow> length bs = 4"
  by (auto simp: pack_f_def be_bytes4_def Let_def split: if_splits)

lemma unpack_f_0 [simp]: "unpack_f [0, 0, 0, 0] = Inr (Fin 0)"
  by (simp add: unpack_f_def be_int_def Let_def)

lemma unpack_f_total: "length bs = 4 \<Longrightarrow> \<exists>a. unpack_f bs = Inr a"
  by (simp add: unpack_f_def Let_def)

lemma tol_value: "tol = 4722366482869645 / 4722366482869645213696"
  by code_simp

lemma tol_pos: "0 < tol"
  by (simp add: tol_value)

lemma neutral_real_ok [simp]: "py_gt (py_abs (Fin 0)) tol = False"
  using tol_pos by (simp add: py_gt_def py_abs_def)

lemma unpack_h_0 [simp]: "unpack_h [0, 0] = Inr 0"
  by (simp add: unpack_h_def be_int_def)

lemma pack_h_0 [simp]: "pack_h 0 = Inr [0, 0]"
  by (simp add: pack_h_def)

lemma unpack_h_total: "length bs = 2 \<Longrightarrow> \<exists>a. unpack_h bs = Inr a"
  by (simp add: unpack_h_def Let_def)

lemma write_real_addr:
  "span_addr [''OPERATION'', ''INPUTS'', ''CUSTOM_SOLVENT''] tag = Some a \<Longrightarrow>
   plc_write_real tag v c =
     (case pack_f (py_float v) of Inl e \<Rightarrow> (Inl e, c) | Inr data \<Rightarrow> db_write 9 a data c)"
  by (auto simp: span_addr_def plc_write_real_def simp del: find_tag.simps
      split: option.splits start_addr.splits if_splits sum.splits)


lemma read_real_addr:
  "span_addr [''OPERATION'', ''INPUTS'', ''CUSTOM_SOLVENT''] tag = Some a \<Longrightarrow>
   plc_read_real tag c =
     (unpack_f (map (cell c) [a..<a + 4]), snd (db_read 9 a 4 c))"
  by (auto simp: span_addr_def plc_read_real_def split_beta fst_db_read simp del: find_tag.simps
      split: option.splits start_addr.splits if_splits sum.splits)

lemma write_int_addr:
  "span_addr [''OPERATION'', ''INPUTS''] tag = Some a \<Longrightarrow>
   plc_write_int tag v c =
     (case pack_h v of Inl e \<Rightarrow> (Inl e, c) | Inr data \<Rightarrow> db_write 9 a data c)"
  by (auto simp: span_addr_def plc_write_int_def simp del: find_tag.simps
      split: option.splits start_addr.splits if_splits sum.splits)


lemma read_int_addr:
  "span_addr [''OPERATION'', ''INPUTS''] tag = Some a \<Longrightarrow>
   plc_read_int tag c = (unpack_h (map (cell c) [a..<a + 2]), snd (db_read 9 a 2 c))"
  by (auto simp: span_addr_def plc_read_int_def split_beta fst_db_read simp del: find_tag.simps
      split: option.splits start_addr.splits if_splits sum.splits)

lemma cell_plc_read_real [simp]: "cell (snd (plc_read_real tag c)) i = cell c i"
  by (auto simp: plc_read_real_def client_read_def split_beta simp del: find_tag.simps
      split: option.splits start_addr.splits sum.splits)

lemma cell_plc_read_int [simp]: "cell (snd (plc_read_int tag c)) i = cell c i"
  by (auto simp: plc_read_int_def client_read_def split_beta simp del: find_tag.simps
      split: option.splits start_addr.splits sum.splits)

lemma cell_plc_read_string [simp]: "cell (snd (plc_read_string tag c)) i = cell c i"
  by (auto simp: plc_read_string_def client_read_def start_plus_def split_beta Let_def
      split: option.splits start_addr.splits sum.splits)

subsection \<open>More tags of the mapping\<close>

lemma real_addr_cases:
  assumes "span_addr [''OPERATION'', ''INPUTS'', ''CUSTOM_SOLVENT''] tag = Some a"
  shows "a \<in> {198, 200, 204, 208, 210, 214, 218, 220, 222, 224, 242, 246, 250, 254}"
proof -
  from assms obtain g where g: "find_tag [''OPERATION'', ''INPUTS'', ''CUSTOM_SOLVENT''] tag = Some g"
    "cfg_start g = IntStart a"
    by (auto simp: span_addr_def simp del: find_tag.simps split: option.splits start_addr.splits if_splits)
  from find_tag_mem [OF g(1)] g(2) show ?thesis
    by (auto simp: section_OPERATION section_INPUTS section_CUSTOM_SOLVENT entry_def
        string_entry_def float_lit_def)
qed

lemma int_addr_cases:
  assumes "span_addr [''OPERATION'', ''INPUTS''] tag = Some a"
  shows "a \<in> {198, 200, 204, 208, 210, 214, 218, 220, 222, 224, 242}"
proof -
  from assms obtain g where g: "find_tag [''OPERATION'', ''INPUTS''] tag = Some g"
    "cfg_start g = IntStart a"
    by (auto simp: span_addr_def simp del: find_tag.simps split: option.splits start_addr.splits if_splits)
  from find_tag_mem [OF g(1)] g(2) show ?thesis
    by (auto simp: section_OPERATION section_INPUTS entry_def string_entry_def float_lit_def)
qed

lemma real_typed_addr:
  assumes "find_tag [''OPERATION'', ''INPUTS'', ''CUSTOM_SOLVENT''] tag = Some g" "cfg_type g = T_REAL"
  shows "\<exists>a. span_addr [''OPERATION'', ''INPUTS'', ''CUSTOM_SOLVENT''] tag = Some a
             \<and> a \<in> {204, 210, 214, 242, 246, 250, 254}"
  using find_tag_mem [OF assms(1)] assms
  by (auto simp: span_addr_def section_OPERATION section_INPUTS section_CUSTOM_SOLVENT entry_def
      string_entry_def float_lit_def simp del: find_tag.simps)

lemma int_typed_addr:
  assumes "find_tag [''OPERATION'', ''INPUTS''] tag = Some g" "cfg_type g = T_INT"
  shows "\<exists>a. span_addr [''OPERATION'', ''INPUTS''] tag = Some a
             \<and> a \<in> {198, 200, 208, 218, 220, 222}"
  using find_tag_mem [OF assms(1)] assms
  by (auto simp: span_addr_def section_OPERATION section_INPUTS entry_def
      string_entry_def float_lit_def simp del: find_tag.simps)

lemma string_tag_cases:
  assumes "map_of (section_of ''INPUTS'') tag = Some g" "cfg_type g = T_STRING"
  shows "g = string_entry (IntStart 224) 16"
  using map_of_SomeD [OF assms(1)] assms(2)
  by (auto simp: section_INPUTS entry_def string_entry_def)

lemma bool_cfg_mem: "bool_cfg tag = Inr g \<Longrightarrow> g \<in> set (map snd (concat (map snd DB_CONFIG)))"
proof (cases "CHR ''.'' \<in> set tag")
  case True
  assume a: "bool_cfg tag = Inr g"
  with True obtain sec sub es where "map_of DB_CONFIG sec = Some es" "map_of es sub = Some g"
    by (auto simp: bool_cfg_def split: list.splits option.splits)
  then have "(sec, es) \<in> set DB_CONFIG" "(sub, g) \<in> set es"
    by (auto dest: map_of_SomeD)
  then show ?thesis by force
next
  case False
  assume a: "bool_cfg tag = Inr g"
  with False have "find_tag [''OPERATION'', ''COMMANDS_RUN'', ''COMMANDS_CLEAN'',
                        ''COMMANDS_PRESSURE_TEST''] tag = Some g"
    by (auto simp: bool_cfg_def simp del: find_tag.simps split: option.splits)
  from find_tag_mem [OF this] obtain s where s: "(tag, g) \<in> set (section_of s)" by auto
  then obtain es where "map_of DB_CONFIG s = Some es" "(tag, g) \<in> set es"
    by (cases "map_of DB_CONFIG s") (auto simp: section_of_def)
  then have "(s, es) \<in> set DB_CONFIG" "(tag, g) \<in> set es"
    by (auto dest: map_of_SomeD)
  then show ?thesis by force
qed

lemma all_cfgs_ok:
  "list_all (\<lambda>g. cfg_db_number g = 9 \<and> bit_offset_of (cfg_start g) < 8
                \<and> (cfg_type g = T_BOOL \<longrightarrow>
                      byte_offset_of (cfg_start g) = 202 \<or> byte_offset_of (cfg_start g) = 258
                      \<or> byte_offset_of (cfg_start g) = 260 \<or> byte_offset_of (cfg_start g) = 262))
     (map snd (concat (map snd DB_CONFIG)))"
  by code_simp


lemma bool_typed_addr:
  assumes "bool_cfg tag = Inr g" "cfg_type g = T_BOOL"
  shows "\<exists>a b. bool_addr tag = Inr (9, a, b) \<and> b < 8 \<and> a \<in> {202, 258, 260, 262}"
  using bool_cfg_mem [OF assms(1)] all_cfgs_ok assms
  by (auto simp: list_all_iff bool_addr_def)

subsection \<open>Rollback\<close>

lemma quiet_refl [simp]: "quiet c c"
  by (simp add: quiet_def)











lemma cell_db_read_fun: "cell (snd (db_read n a sz c)) = cell c"
  by (rule ext) simp

lemma well_typed_real:
  "well_typed (Q_REAL tag v) \<Longrightarrow>
   \<exists>a. span_addr [''OPERATION'', ''INPUTS'', ''CUSTOM_SOLVENT''] tag = Some a
       \<and> a \<in> {204, 210, 214, 242, 246, 250, 254}"
  by (auto simp: well_typed_def simp del: find_tag.simps split: option.splits dest: real_typed_addr)

lemma well_typed_int:
  "well_typed (Q_INT tag v) \<Longrightarrow>
   \<exists>a. span_addr [''OPERATION'', ''INPUTS''] tag = Some a \<and> a \<in> {198, 200, 208, 218, 220, 222}"
  by (auto simp: well_typed_def simp del: find_tag.simps split: option.splits dest: int_typed_addr)

lemma well_typed_bool:
  "well_typed (Q_BOOL tag v) \<Longrightarrow>
   \<exists>a b. bool_addr tag = Inr (9, a, b) \<and> b < 8 \<and> a \<in> {202, 258, 260, 262}"
  by (auto simp: well_typed_def split: sum.splits dest: bool_typed_addr)

lemma well_typed_string:
  "well_typed (Q_STRING tag v m) \<Longrightarrow>
   map_of (section_of ''INPUTS'') tag = Some (string_entry (IntStart 224) 16) \<and> m = 16"
  by (auto simp: well_typed_def string_entry_def split: option.splits dest!: string_tag_cases)


lemma read_string_header:
  assumes "map_of (section_of ''INPUTS'') tag = Some (string_entry (IntStart 224) 16)"
  shows "fst (plc_read_string tag c) =
     (if unat (cell c 225) > 0
      then utf8_decode (map (cell c) [226..<226 + unat (cell c 225)]) else Inr [])"
  using upt_2 [of 224]
  by (simp add: plc_read_string_def assms string_entry_def split_beta fst_db_read Let_def
      start_plus_def cell_db_read_fun)


lemma zeroed_rollback:
  assumes "well_typed w"
  shows "zeroed w (snd (rollback_write w c)) \<and> fst (rollback_write w c) = []"
proof (cases w)
  case (Q_REAL tag v)
  from well_typed_real [OF assms [unfolded Q_REAL]] show ?thesis
    by (auto simp: Q_REAL zeroed_def rollback_write_def write_real_addr read_real_addr
        fst_db_write split_beta cell_db_write upt_4)
next
  case (Q_INT tag v)
  from well_typed_int [OF assms [unfolded Q_INT]] show ?thesis
    by (auto simp: Q_INT zeroed_def rollback_write_def write_int_addr read_int_addr
        fst_db_write split_beta cell_db_write upt_2)
next
  case (Q_BOOL tag v)
  from well_typed_bool [OF assms [unfolded Q_BOOL]] show ?thesis
    by (auto simp: Q_BOOL zeroed_def rollback_write_def plc_write_bool_addr plc_read_bool_addr
        fst_db_write_bit fst_db_read_bit split_beta cell_db_write_bit bit_simps)
next
  case (Q_STRING tag v m)
  from well_typed_string [OF assms [unfolded Q_STRING]]
  have t: "map_of (section_of ''INPUTS'') tag = Some (string_entry (IntStart 224) 16)" and m: "m = 16"
    by auto
  have w: "plc_write_string tag [] 16 c = db_write 9 224 (16 # 0 # replicate 16 0) c"
    by (simp add: plc_write_string_def t string_entry_def)
  have c225: "cell (snd (db_write 9 224 (16 # 0 # replicate 16 0) c)) 225 = 0"
    by (simp add: cell_db_write)
  show ?thesis
    by (simp add: Q_STRING m zeroed_def rollback_write_def w fst_db_write split_beta
        read_string_header [OF t] c225)
qed


lemma rollback_no_errors:
  "list_all well_typed ws \<Longrightarrow> fst (rollback_writes ws c) = []"
  by (induction ws arbitrary: c) (auto simp: split_beta zeroed_rollback)


lemma attempt_mismatch:
  "fst (execute_writes ws c) = Inr () \<Longrightarrow>
   fst (verify_writes ws (snd (execute_writes ws c))) = Inr errors \<Longrightarrow> errors \<noteq> [] \<Longrightarrow>
   fst (attempt ws c) = Inl (ValueError (VerificationFailed errors))"
  by (simp add: attempt_def split_beta)

lemma py_float_1: "py_float 1 = 1" by code_simp
lemma pack_f_1: "pack_f 1 = Inr [63, 128, 0, 0]" by code_simp

lemma addr_r_TFR: "span_addr [''OPERATION'', ''INPUTS'', ''CUSTOM_SOLVENT''] ''r_TFR'' = Some 204"
  by (simp add: span_addr_def section_OPERATION section_INPUTS entry_def)

lemma addr_i_FRR: "span_addr [''OPERATION'', ''INPUTS''] ''i_FRR'' = Some 208"
  by (simp add: span_addr_def section_OPERATION section_INPUTS entry_def)








subsection \<open>A custom solvent name with multi-byte characters\<close>

lemma py_float_vals: "py_float 10 = 10" "py_float 25 = 25" "py_float 1000 = 1000"
  by code_simp+

lemma pack_f_vals:
  "pack_f 10 = Inr [65, 32, 0, 0]" "pack_f 25 = Inr [65, 200, 0, 0]"
  "pack_f 1000 = Inr [68, 122, 0, 0]"
  by code_simp+

lemma length_overflow_name: "length overflow_name = 16"
  by (simp add: overflow_name_def)

lemma queue_overflow:
  "queue_parameters overflow_payload (transaction_init c) =
     (Inr (), \<lparr>plc = c, writes = overflow_writes, committed = False\<rparr>)"
  by (simp add: queue_parameters_def queue_solvent_def overflow_payload_def tx_write_string_def
      tx_write_real_def tx_write_int_def transaction_init_def overflow_writes_def
      length_overflow_name py_float_vals py_float_1 int_OrgSolventID_def int_ManifoldID_def
      int_ChipID_def int_OperationMode_def)


lemma encode_overflow_name:
  "utf8_encode overflow_name = Inr (drop 2 overflow_data)"
  unfolding overflow_name_def overflow_data_def by code_simp

lemma decode_overflow_prefix:
  "utf8_decode (take 16 (drop 2 overflow_data)) = Inl UnicodeDecodeError"
  unfolding overflow_data_def by code_simp

lemma length_overflow_data: "length overflow_data = 50"
  by (simp add: overflow_data_def)

lemma addr_string:
  "map_of (section_of ''INPUTS'') ''s_CUSTOM_ORG_SOLVENT'' = Some (string_entry (IntStart 224) 16)"
  by (simp add: section_INPUTS)

lemma write_overflow_name:
  "plc_write_string ''s_CUSTOM_ORG_SOLVENT'' overflow_name 16 c = db_write 9 224 overflow_data c"
proof -
  have "[16, 16] @ drop 2 overflow_data = overflow_data"
    by (simp add: overflow_data_def)
  then show ?thesis
    by (simp add: plc_write_string_def addr_string string_entry_def length_overflow_name
        encode_overflow_name)
qed

lemma real_addrs:
  "span_addr [''OPERATION'', ''INPUTS'', ''CUSTOM_SOLVENT''] ''r_TARGET_VOLUME'' = Some 210"
  "span_addr [''OPERATION'', ''INPUTS'', ''CUSTOM_SOLVENT''] ''r_TEMPERATURE'' = Some 214"
  "span_addr [''OPERATION'', ''INPUTS'', ''CUSTOM_SOLVENT''] ''r_LAB_PRESSURE'' = Some 242"
  "span_addr [''OPERATION'', ''INPUTS'', ''CUSTOM_SOLVENT''] ''r_VISCOSITY'' = Some 246"
  "span_addr [''OPERATION'', ''INPUTS'', ''CUSTOM_SOLVENT''] ''r_SENSITIVITY'' = Some 250"
  "span_addr [''OPERATION'', ''INPUTS'', ''CUSTOM_SOLVENT''] ''r_MOLAR_VOLUME'' = Some 254"
  by (simp_all add: span_addr_def section_OPERATION section_INPUTS section_CUSTOM_SOLVENT entry_def)

lemma int_addrs:
  "span_addr [''OPERATION'', ''INPUTS''] ''OPERATION_MODE'' = Some 198"
  "span_addr [''OPERATION'', ''INPUTS''] ''i_CHIP_ID'' = Some 218"
  "span_addr [''OPERATION'', ''INPUTS''] ''i_MANIFOLD_ID'' = Some 220"
  "span_addr [''OPERATION'', ''INPUTS''] ''i_ORG_SOLVENT_ID'' = Some 222"
  by (simp_all add: span_addr_def section_OPERATION section_INPUTS entry_def)

lemmas overflow_steps =
  execute_write_def write_overflow_name
  write_real_addr [OF addr_r_TFR] write_real_addr [OF real_addrs(1)]
  write_real_addr [OF real_addrs(2)] write_real_addr [OF real_addrs(3)]
  write_real_addr [OF real_addrs(4)] write_real_addr [OF real_addrs(5)]
  write_real_addr [OF real_addrs(6)]
  write_int_addr [OF addr_i_FRR] write_int_addr [OF int_addrs(1)]
  write_int_addr [OF int_addrs(2)] write_int_addr [OF int_addrs(3)]
  write_int_addr [OF int_addrs(4)]
  py_float_1 py_float_vals pack_f_1 pack_f_vals pack_h_def
  split_beta fst_db_write

lemma execute_overflow_ok: "fst (execute_writes overflow_writes c) = Inr ()"
  by (simp add: overflow_writes_def overflow_steps)

lemma execute_overflow_cell:
  "224 \<le> i \<Longrightarrow> i < 246 \<or> 258 \<le> i \<Longrightarrow> i < 274 \<Longrightarrow>
   cell (snd (execute_writes overflow_writes c)) i = overflow_data ! (i - 224)"
  by (auto simp add: overflow_writes_def overflow_steps cell_db_write length_overflow_data)


lemma cell_verify_write [simp]: "cell (snd (verify_write w c)) i = cell c i"
  by (cases w) (auto simp: verify_write_def split_beta split: sum.splits)

lemma cell_verify_writes [simp]: "cell (snd (verify_writes ws c)) i = cell c i"
  by (induction ws arbitrary: c) (auto simp: split_beta split: sum.splits)

lemma cell_attempt: "cell (snd (attempt ws c)) i = cell (snd (execute_writes ws c)) i"
  by (auto simp: attempt_def split_beta split: sum.splits)

lemma verify_total:
  assumes "well_typed w" "case w of Q_STRING tag v m \<Rightarrow> False | _ \<Rightarrow> True"
  shows "\<exists>m. fst (verify_write w c) = Inr m"
proof (cases w)
  case (Q_REAL tag v)
  from well_typed_real [OF assms(1) [unfolded Q_REAL]] obtain a where
    a: "span_addr [''OPERATION'', ''INPUTS'', ''CUSTOM_SOLVENT''] tag = Some a" by auto
  from unpack_f_total [of "map (cell c) [a..<a + 4]"] show ?thesis
    by (auto simp: Q_REAL verify_write_def read_real_addr [OF a])
next
  case (Q_INT tag v)
  from well_typed_int [OF assms(1) [unfolded Q_INT]] obtain a where
    a: "span_addr [''OPERATION'', ''INPUTS''] tag = Some a" by auto
  from unpack_h_total [of "map (cell c) [a..<a + 2]"] show ?thesis
    by (auto simp: Q_INT verify_write_def read_int_addr [OF a])
next
  case (Q_BOOL tag v)
  from well_typed_bool [OF assms(1) [unfolded Q_BOOL]] show ?thesis
    by (auto simp: Q_BOOL verify_write_def plc_read_bool_addr fst_db_read_bit split_beta)
next
  case (Q_STRING tag v m)
  with assms(2) show ?thesis by simp
qed

lemma verify_raises:
  assumes "\<forall>w \<in> set pre. \<forall>c. \<exists>m. fst (verify_write w c) = Inr m"
    and "\<And>c. (\<And>i. cell c i = cell s i) \<Longrightarrow> fst (verify_write w c) = Inl e"
  shows "(\<And>i. cell c i = cell s i) \<Longrightarrow> fst (verify_writes (pre @ w # post) c) = Inl e"
  using assms(1)
proof (induction pre arbitrary: c)
  case Nil
  from assms(2) [of c] Nil.prems(1) show ?case by (simp add: split_beta)
next
  case (Cons x pre)
  from Cons.prems have "\<exists>m. fst (verify_write x c) = Inr m" by simp
  then obtain m where m: "fst (verify_write x c) = Inr m" ..
  have "fst (verify_writes (pre @ w # post) (snd (verify_write x c))) = Inl e"
    using Cons.prems by (intro Cons.IH) simp_all
  with m show ?case by (simp add: split_beta)
qed

lemma verify_overflow_name:
  assumes "\<And>i. cell c i = cell (snd (execute_writes overflow_writes c0)) i"
  shows "fst (verify_write (Q_STRING ''s_CUSTOM_ORG_SOLVENT'' overflow_name 16) c)
           = Inl UnicodeDecodeError"
proof -
  have c225: "cell c 225 = 16"
    by (simp add: assms execute_overflow_cell overflow_data_def)
  have "map (cell c) [226..<226 + 16] = take 16 (drop 2 overflow_data)"
    by (simp add: upt_rec assms execute_overflow_cell) (simp add: overflow_data_def)
  then show ?thesis
    using decode_overflow_prefix
    by (simp add: verify_write_def read_string_header [OF addr_string] c225 split_beta)
qed


lemma well_typed_overflow: "list_all well_typed overflow_writes"
  by (simp add: overflow_writes_def well_typed_def section_OPERATION section_INPUTS
      section_CUSTOM_SOLVENT entry_def string_entry_def)

lemma rollback_write_frame:
  assumes "well_typed w" "case w of Q_BOOL tag v \<Rightarrow> False | _ \<Rightarrow> True" "258 \<le> i"
  shows "cell (snd (rollback_write w c)) i = cell c i"
proof (cases w)
  case (Q_REAL tag v)
  from well_typed_real [OF assms(1) [unfolded Q_REAL]] assms(3) show ?thesis
    by (auto simp: Q_REAL rollback_write_def write_real_addr fst_db_write split_beta
        cell_db_write split: sum.splits)
next
  case (Q_INT tag v)
  from well_typed_int [OF assms(1) [unfolded Q_INT]] assms(3) show ?thesis
    by (auto simp: Q_INT rollback_write_def write_int_addr fst_db_write split_beta
        cell_db_write split: sum.splits)
next
  case (Q_BOOL tag v)
  with assms(2) show ?thesis by simp
next
  case (Q_STRING tag v m)
  from well_typed_string [OF assms(1) [unfolded Q_STRING]]
  have t: "map_of (section_of ''INPUTS'') tag = Some (string_entry (IntStart 224) 16)" and m: "m = 16"
    by auto
  have w: "plc_write_string tag [] 16 c = db_write 9 224 (16 # 0 # replicate 16 0) c"
    by (simp add: plc_write_string_def t string_entry_def)
  from assms(3) show ?thesis
    by (auto simp: Q_STRING m rollback_write_def w fst_db_write split_beta cell_db_write
        split: sum.splits)
qed

lemma rollback_writes_frame:
  "list_all (\<lambda>w. well_typed w \<and> (case w of Q_BOOL tag v \<Rightarrow> False | _ \<Rightarrow> True)) ws \<Longrightarrow>
   258 \<le> i \<Longrightarrow> cell (snd (rollback_writes ws c)) i = cell c i"
  by (induction ws arbitrary: c) (auto simp: split_beta rollback_write_frame)

lemma no_bool_overflow:
  "list_all (\<lambda>w. well_typed w \<and> (case w of Q_BOOL tag v \<Rightarrow> False | _ \<Rightarrow> True)) overflow_writes"
  using well_typed_overflow by (simp add: overflow_writes_def)

lemma verify_overflow:
  "fst (verify_writes overflow_writes (snd (execute_writes overflow_writes c))) =
     Inl UnicodeDecodeError"
proof -
  let ?pre = "take 9 overflow_writes"
  let ?post = "drop 10 overflow_writes"
  have split: "overflow_writes = ?pre @ Q_STRING ''s_CUSTOM_ORG_SOLVENT'' overflow_name 16 # ?post"
    by (simp add: overflow_writes_def)
  have wt: "list_all well_typed ?pre"
    using well_typed_overflow by (simp add: overflow_writes_def)
  have pre: "\<forall>w \<in> set ?pre. \<forall>c. \<exists>m. fst (verify_write w c) = Inr m"
  proof (intro ballI allI)
    fix w c assume w: "w \<in> set ?pre"
    with wt have "well_typed w" by (simp add: list_all_iff)
    moreover from w have "case w of Q_STRING tag v m \<Rightarrow> False | _ \<Rightarrow> True"
      by (auto simp: overflow_writes_def)
    ultimately show "\<exists>m. fst (verify_write w c) = Inr m" by (rule verify_total)
  qed
  have "fst (verify_writes (?pre @ Q_STRING ''s_CUSTOM_ORG_SOLVENT'' overflow_name 16 # ?post)
          (snd (execute_writes overflow_writes c))) = Inl UnicodeDecodeError"
    by (rule verify_raises [OF pre, where s = "snd (execute_writes overflow_writes c)"])
       (rule verify_overflow_name, simp_all)
  with split show ?thesis by simp
qed

lemma attempt_overflow: "fst (attempt overflow_writes c) = Inl UnicodeDecodeError"
  using execute_overflow_ok [of c] verify_overflow [of c]
  by (simp add: attempt_def split_beta split: sum.splits)

lemma commit_overflow:
  "fst (commit \<lparr>plc = c, writes = overflow_writes, committed = False\<rparr>)
     = Inl (ValueError (TransactionRolledBack UnicodeDecodeError))"
  "cell (plc (snd (commit \<lparr>plc = c, writes = overflow_writes, committed = False\<rparr>))) 258 = 153"
proof -
  let ?tx = "\<lparr>plc = c, writes = overflow_writes, committed = False\<rparr>"
  have r: "fst (rollback_writes overflow_writes c') = []" for c'
    by (rule rollback_no_errors [OF well_typed_overflow])
  show "fst (commit ?tx) = Inl (ValueError (TransactionRolledBack UnicodeDecodeError))"
    using attempt_overflow [of c] by (simp add: commit_def split_beta r split: sum.splits)
  have "cell (plc (snd (commit ?tx))) 258 = cell (snd (attempt overflow_writes c)) 258"
    using attempt_overflow [of c]
    by (simp add: commit_def split_beta rollback_writes_frame [OF no_bool_overflow]
        split: sum.splits)
  also have "\<dots> = 153"
    by (simp add: cell_attempt execute_overflow_cell) (simp add: overflow_data_def)
  finally show "cell (plc (snd (commit ?tx))) 258 = 153" .
qed

text \<open>
  C5. \<^verbatim>\<open>write_parameters_to_plc\<close> does write a command byte. \<^verbatim>\<open>PLCTransaction.write_string\<close>
  checks \<^verbatim>\<open>len(value) > max_len\<close> on characters, and \<^verbatim>\<open>_write_string\<close> assigns the encoded
  bytes to the slice \<^verbatim>\<open>data[2:2+len(value)]\<close>, which grows the buffer when the name has
  multi-byte characters. For the payload \<open>overflow_payload\<close> on a freshly connected simulator,
  50 bytes are written from byte 224 on, up to byte 273. The read-back of the name raises
  \<^verbatim>\<open>UnicodeDecodeError\<close>, the rollback writes nothing above byte 257, and the call raises
  \<^verbatim>\<open>ValueError("Transaction failed and rolled back successfully: ...")\<close>. Byte 258, the
  command byte of the Run mode, read \<^verbatim>\<open>0x30\<close> before the call and reads \<^verbatim>\<open>0x99\<close> after it:
  \<^verbatim>\<open>_read_bool('COMMANDS_RUN.b_START')\<close> was \<^verbatim>\<open>False\<close> and is \<^verbatim>\<open>True\<close>.
\<close>

theorem write_parameters_sets_start_bit:
  "(let c = sim_connect (sim_init False);
        c' = snd (write_parameters_to_plc overflow_payload c)
    in fst (db_read 9 258 1 c) = Inr [48]
     \<and> fst (plc_read_bool ''COMMANDS_RUN.b_START'' c) = Inr False
     \<and> fst (write_parameters_to_plc overflow_payload c)
         = Inl (ValueError (TransactionRolledBack UnicodeDecodeError))
     \<and> fst (db_read 9 258 1 c') = Inr [153]
     \<and> fst (plc_read_bool ''COMMANDS_RUN.b_START'' c') = Inr True)"
proof -
  let ?c = "sim_connect (sim_init False)"
  have a: "bool_addr ''COMMANDS_RUN.b_START'' = Inr (9, 258, 0)"
    using bool_addr_cmd [of RUN START]
    by (simp add: cmd_tag_def mode_map_def cmd_map_def cmd_byte_def cmd_bit_def)
  have c0: "cell ?c 258 = 48"
    by (simp add: cell_def sim_connect_def sim_init_def pad_bytes_def)
  have w: "write_parameters_to_plc overflow_payload ?c =
      (fst (commit \<lparr>plc = ?c, writes = overflow_writes, committed = False\<rparr>),
       plc (snd (commit \<lparr>plc = ?c, writes = overflow_writes, committed = False\<rparr>)))"
    by (simp add: write_parameters_to_plc_def queue_overflow split_beta)
  show ?thesis
    unfolding Let_def w fst_conv snd_conv
    by (simp add: commit_overflow plc_read_bool_addr a fst_db_read_bit fst_db_read c0 upt_rec)
qed

subsection \<open>Powers of two and binary logarithm\<close>

text \<open>
  The recursion equation of \<open>bitlen\<close> is unfolded by hand (\<open>bitlen_nonpos\<close>, \<open>bitlen_rec\<close>).
\<close>

declare bitlen.simps [simp del]

lemma pow2_powi: "pow2 e = 2 powi e"
  by (simp add: pow2_def power_int_def power_one_over)

lemma pow2_pos [simp]: "0 < pow2 e"
  by (simp add: pow2_powi zero_less_power_int)

lemma pow2_add: "pow2 (a + b) = pow2 a * pow2 b"
  by (simp add: pow2_powi power_int_add)

lemma pow2_diff: "pow2 (a - b) = pow2 a / pow2 b"
  by (simp add: pow2_powi power_int_diff)

lemma pow2_less: "a < b \<Longrightarrow> pow2 a < pow2 b"
  by (simp add: pow2_powi power_int_strict_increasing)

lemma pow2_le: "a \<le> b \<Longrightarrow> pow2 a \<le> pow2 b"
  by (simp add: pow2_powi power_int_increasing)

lemma pow2_less_iff: "(pow2 a < pow2 b) = (a < b)"
  using pow2_less [of a b] pow2_le [of b a] by (auto simp: not_le [symmetric])

lemma pow2_nat: "0 \<le> e \<Longrightarrow> pow2 e = of_int (2 ^ nat e)"
  by (simp add: pow2_def)

lemma bitlen_nonpos: "n \<le> 0 \<Longrightarrow> bitlen n = 0"
  by (subst bitlen.simps) simp

lemma bitlen_rec: "0 < n \<Longrightarrow> bitlen n = 1 + bitlen (n div 2)"
  by (subst bitlen.simps) simp

lemma bitlen_bounds:
  "0 < n \<Longrightarrow> 0 < bitlen n \<and> 2 ^ nat (bitlen n - 1) \<le> n \<and> n < 2 ^ nat (bitlen n)"
proof (induction n rule: bitlen.induct)
  case (1 n)
  show ?case
  proof (cases "n div 2 = 0")
    case True
    with 1(2) have "n = 1" by presburger
    then show ?thesis by (simp add: bitlen_rec bitlen_nonpos)
  next
    case False
    with 1(2) have m: "0 < n div 2" by presburger
    from 1(1) m 1(2) have ih: "0 < bitlen (n div 2)"
      "2 ^ nat (bitlen (n div 2) - 1) \<le> n div 2" "n div 2 < 2 ^ nat (bitlen (n div 2))"
      by auto
    have b: "bitlen n = 1 + bitlen (n div 2)" using 1(2) by (rule bitlen_rec)
    have "nat (bitlen (n div 2)) = Suc (nat (bitlen (n div 2) - 1))"
      using ih(1) by arith
    then have p: "(2::int) ^ nat (bitlen (n div 2)) = 2 * 2 ^ nat (bitlen (n div 2) - 1)"
      by simp
    have "nat (1 + bitlen (n div 2)) = Suc (nat (bitlen (n div 2)))"
      using ih(1) by arith
    then have q: "(2::int) ^ nat (1 + bitlen (n div 2)) = 2 * 2 ^ nat (bitlen (n div 2))"
      by simp
    from ih p have "2 ^ nat (bitlen (n div 2)) \<le> n" by linarith
    moreover from ih q have "n < 2 ^ nat (1 + bitlen (n div 2))" by linarith
    ultimately show ?thesis using ih(1) by (simp add: b)
  qed
qed

lemma bitlen_rat:
  assumes "0 < n"
  shows "pow2 (bitlen n - 1) \<le> of_int n" "(of_int n :: rat) < pow2 (bitlen n)"
proof -
  note b = bitlen_bounds [OF assms]
  have "(of_int (2 ^ nat (bitlen n - 1)) :: rat) \<le> of_int n"
    using b by (subst of_int_le_iff) simp
  moreover have "pow2 (bitlen n - 1) = of_int (2 ^ nat (bitlen n - 1))"
    using b by (intro pow2_nat) simp
  ultimately show "pow2 (bitlen n - 1) \<le> of_int n" by simp
  have "(of_int n :: rat) < of_int (2 ^ nat (bitlen n))"
    using b by (subst of_int_less_iff) simp
  moreover have "pow2 (bitlen n) = of_int (2 ^ nat (bitlen n))"
    using b by (intro pow2_nat) simp
  ultimately show "(of_int n :: rat) < pow2 (bitlen n)" by simp
qed

lemma ilog2_bounds:
  assumes "0 < x"
  shows "pow2 (ilog2 x) \<le> x" "x < pow2 (ilog2 x + 1)"
proof -
  obtain n d where q: "quotient_of x = (n, d)" by (cases "quotient_of x")
  then have d: "0 < d" and x: "x = of_int n / of_int d"
    by (auto dest: quotient_of_denom_pos quotient_of_div)
  with assms have n: "0 < n" by (simp add: zero_less_divide_iff)
  define k where "k = bitlen n - bitlen d"
  note bn = bitlen_bounds [OF n] and bd = bitlen_bounds [OF d]
  have n1: "pow2 (bitlen n - 1) \<le> of_int n" and n2: "(of_int n :: rat) < pow2 (bitlen n)"
    by (rule bitlen_rat [OF n])+
  have d1: "pow2 (bitlen d - 1) \<le> of_int d" and d2: "(of_int d :: rat) < pow2 (bitlen d)"
    by (rule bitlen_rat [OF d])+
  have dpos: "(0::rat) < of_int d" using d by simp
  have up: "x < pow2 (k + 1)"
  proof -
    have "x * of_int d = of_int n" using dpos by (simp add: x)
    also have "\<dots> < pow2 (bitlen n)" by (rule n2)
    also have "\<dots> = pow2 (k + 1) * pow2 (bitlen d - 1)"
      using pow2_add [of "k + 1" "bitlen d - 1"] by (simp add: k_def)
    also have "\<dots> \<le> pow2 (k + 1) * of_int d"
      using d1 by (simp add: mult_left_mono less_imp_le)
    finally show ?thesis using dpos by simp
  qed
  have lo: "pow2 (k - 1) < x"
  proof -
    have "pow2 (k - 1) * of_int d < pow2 (k - 1) * pow2 (bitlen d)"
      using d2 by (simp add: mult_strict_left_mono)
    also have "\<dots> = pow2 (bitlen n - 1)"
      using pow2_add [of "k - 1" "bitlen d"] by (simp add: k_def)
    also have "\<dots> \<le> of_int n" by (rule n1)
    also have "\<dots> = x * of_int d" using dpos by (simp add: x)
    finally show ?thesis using dpos by simp
  qed
  have i: "ilog2 x = (if pow2 k \<le> x then k else k - 1)"
    by (simp add: ilog2_def q k_def Let_def)
  show "pow2 (ilog2 x) \<le> x" using lo by (simp add: i less_imp_le)
  show "x < pow2 (ilog2 x + 1)" using up by (simp add: i not_le)
qed

lemma ilog2_unique:
  assumes "pow2 e \<le> x" "x < pow2 (e + 1)"
  shows "ilog2 x = e"
proof -
  have x: "0 < x" using assms(1) pow2_pos [of e] by linarith
  note b = ilog2_bounds [OF x]
  from b(1) assms(2) have "pow2 (ilog2 x) < pow2 (e + 1)" by linarith
  then have "ilog2 x < e + 1" by (simp add: pow2_less_iff)
  moreover from assms(1) b(2) have "pow2 e < pow2 (ilog2 x + 1)" by linarith
  then have "e < ilog2 x + 1" by (simp add: pow2_less_iff)
  ultimately show ?thesis by simp
qed

subsection \<open>Rounding to binary32\<close>

lemma pow2_neq_0 [simp]: "pow2 e \<noteq> 0"
  by (rule less_imp_neq [OF pow2_pos, THEN not_sym])

lemma pow2_nonneg [simp]: "0 \<le> pow2 e"
  by (rule less_imp_le [OF pow2_pos])

lemma abs_pow2 [simp]: "\<bar>pow2 e\<bar> = pow2 e"
  by (rule abs_of_pos [OF pow2_pos])

lemma round_half_even_err: "\<bar>of_int (round_half_even x) - x\<bar> \<le> 1 / 2"
proof -
  have "of_int \<lfloor>x\<rfloor> \<le> x" "x < of_int \<lfloor>x\<rfloor> + 1" by linarith+
  then show ?thesis by (auto simp: round_half_even_def Let_def)
qed

lemma round_half_even_int [simp]: "round_half_even (of_int m) = m"
  by (simp add: round_half_even_def)

lemma round_half_even_le: "x \<le> of_int m \<Longrightarrow> round_half_even x \<le> m"
proof -
  assume a: "x \<le> of_int m"
  have f: "of_int \<lfloor>x\<rfloor> \<le> x" "x < of_int \<lfloor>x\<rfloor> + 1" by linarith+
  have "\<lfloor>x\<rfloor> \<le> m" using a by (simp add: floor_le_iff)
  moreover have "\<lfloor>x\<rfloor> = m \<Longrightarrow> x - of_int \<lfloor>x\<rfloor> < 1 / 2" using a f by simp
  ultimately show ?thesis
    by (cases "\<lfloor>x\<rfloor> = m") (auto simp: round_half_even_def Let_def)
qed

lemma round_half_even_ge: "of_int m \<le> x \<Longrightarrow> m \<le> round_half_even x"
proof -
  assume a: "of_int m \<le> x"
  then have "m \<le> \<lfloor>x\<rfloor>" by (simp add: le_floor_iff)
  then show ?thesis by (auto simp: round_half_even_def Let_def)
qed

text \<open>The quantum and the significand of the binary32 nearest to \<open>x\<close>.\<close>

lemma float32_eq:
  "x \<noteq> 0 \<Longrightarrow>
   float32 x = of_int (round_half_even (x / pow2 (quantum 24 (- 149) x))) * pow2 (quantum 24 (- 149) x)"
  by (simp add: float32_def round_bin_def)

lemma quantum_eq: "quantum 24 (- 149) x = max (ilog2 \<bar>x\<bar> - 23) (- 149)"
  by (simp add: quantum_def)

lemma float32_err:
  assumes "x \<noteq> 0"
  shows "\<bar>float32 x - x\<bar> \<le> pow2 (quantum 24 (- 149) x) / 2"
proof -
  let ?q = "quantum 24 (- 149) x"
  let ?m = "round_half_even (x / pow2 ?q)"
  have "\<bar>float32 x - x\<bar> = \<bar>(of_int ?m - x / pow2 ?q) * pow2 ?q\<bar>"
    using pow2_pos [of ?q] by (simp add: float32_eq [OF assms] algebra_simps)
  also have "\<dots> = \<bar>of_int ?m - x / pow2 ?q\<bar> * pow2 ?q"
    using pow2_pos [of ?q] by (simp add: abs_mult)
  also have "\<dots> \<le> 1 / 2 * pow2 ?q"
    by (intro mult_right_mono round_half_even_err pow2_nonneg)
  finally show ?thesis by simp
qed

lemma float32_mant:
  assumes "x \<noteq> 0"
  shows "\<bar>round_half_even (x / pow2 (quantum 24 (- 149) x))\<bar> \<le> 2 ^ 24"
proof -
  let ?q = "quantum 24 (- 149) x"
  have a: "0 < \<bar>x\<bar>" using assms by simp
  have q: "ilog2 \<bar>x\<bar> + 1 \<le> ?q + 24" by (simp add: quantum_eq)
  have "\<bar>x\<bar> < pow2 (ilog2 \<bar>x\<bar> + 1)" by (rule ilog2_bounds [OF a])
  also have "\<dots> \<le> pow2 (?q + 24)" using q by (rule pow2_le)
  also have "\<dots> = pow2 ?q * 2 ^ 24" by (simp add: pow2_add) (simp add: pow2_def)
  finally have "\<bar>x\<bar> / pow2 ?q < 2 ^ 24"
    using pow2_pos [of ?q] by (simp add: pos_divide_less_eq mult.commute)
  then have "\<bar>x / pow2 ?q\<bar> < 2 ^ 24"
    by (simp add: abs_divide)
  then have "x / pow2 ?q < 2 ^ 24" "- (2 ^ 24) < x / pow2 ?q"
    unfolding abs_less_iff by linarith+
  then have "x / pow2 ?q \<le> of_int (2 ^ 24)" "of_int (- (2 ^ 24)) \<le> x / pow2 ?q"
    by simp_all
  from round_half_even_le [OF this(1)] round_half_even_ge [OF this(2)]
  show ?thesis by (simp add: abs_le_iff)
qed

lemma ilog2_less: "0 < x \<Longrightarrow> x < pow2 k \<Longrightarrow> ilog2 x < k"
  using ilog2_bounds(1) [of x] pow2_less_iff [of "ilog2 x" k] by simp

lemma float32_err_below:
  assumes "x \<noteq> 0" "\<bar>x\<bar> < pow2 k" "- 125 \<le> k"
  shows "\<bar>float32 x - x\<bar> \<le> pow2 (k - 25)"
proof -
  have "ilog2 \<bar>x\<bar> < k" using assms by (intro ilog2_less) simp_all
  then have "quantum 24 (- 149) x \<le> k - 24" using assms(3) by (simp add: quantum_eq)
  then have "pow2 (quantum 24 (- 149) x) \<le> pow2 (k - 24)" by (rule pow2_le)
  moreover have "pow2 (k - 24) = 2 * pow2 (k - 25)"
    using pow2_add [of 1 "k - 25"] by (simp add: pow2_def)
  ultimately show ?thesis using float32_err [OF assms(1)] by simp
qed

subsection \<open>Unpacking a packed binary32\<close>

lemma pow2_le_iff: "(pow2 a \<le> pow2 b) = (a \<le> b)"
  using pow2_less_iff [of b a] by (auto simp: not_less [symmetric])

lemma pow2_0 [simp]: "pow2 0 = 1"
  by (simp add: pow2_def)

lemma be_int_4:
  "be_int [a, b, c, d] = ((uint a * 256 + uint b) * 256 + uint c) * 256 + uint d"
  by (simp add: be_int_def)

lemma be_int_be_bytes4:
  assumes "0 \<le> b" "b < 4294967296"
  shows "be_int (be_bytes4 b) = b"
proof -
  define b1 where "b1 = b div 256"
  define b2 where "b2 = b1 div 256"
  define b3 where "b3 = b2 div 256"
  have d1: "b1 * 256 + b mod 256 = b" by (simp add: b1_def)
  have d2: "b2 * 256 + b1 mod 256 = b1" by (simp add: b2_def)
  have d3: "b3 * 256 + b2 mod 256 = b2" by (simp add: b3_def)
  have e2: "b div 65536 = b2"
    using zdiv_zmult2_eq [of 256 b 256] by (simp add: b2_def b1_def)
  have e3: "b div 16777216 = b3"
    using zdiv_zmult2_eq [of 256 b 65536] by (simp add: b3_def e2)
  have m: "0 \<le> b mod 256" "0 \<le> b1 mod 256" "0 \<le> b2 mod 256" by simp_all
  have "0 \<le> b3" using assms(1) by (simp add: b3_def b2_def b1_def)
  moreover have "b3 < 256" using d1 d2 d3 m assms(2) by linarith
  ultimately have m3: "b3 mod 256 = b3" by simp
  have "be_int (be_bytes4 b) = ((b3 * 256 + b2 mod 256) * 256 + b1 mod 256) * 256 + b mod 256"
    by (simp add: be_bytes4_def be_int_4 uint_byte_of_int e2 e3 m3 flip: b1_def)
  also have "\<dots> = b" by (simp only: d3 d2 d1)
  finally show ?thesis .
qed

lemma bit_fields:
  assumes "0 \<le> F" "F < 8388608" "0 \<le> E" "E < 256" "sg = 0 \<or> sg = 1"
  shows "(sg * 2147483648 + E * 8388608 + F) div 2147483648 = (sg::int)"
    and "(sg * 2147483648 + E * 8388608 + F) div 8388608 mod 256 = E"
    and "(sg * 2147483648 + E * 8388608 + F) mod 8388608 = F"
    and "0 \<le> sg * 2147483648 + E * 8388608 + F"
    and "sg * 2147483648 + E * 8388608 + F < 4294967296"
proof -
  let ?b = "sg * 2147483648 + E * 8388608 + F"
  have s: "0 \<le> sg" "sg \<le> 1" using assms(5) by auto
  show "?b div 2147483648 = sg"
    by (rule int_div_pos_eq [where r = "E * 8388608 + F"]) (use assms in \<open>auto simp: algebra_simps\<close>)
  have "?b div 8388608 = sg * 256 + E"
    by (rule int_div_pos_eq [where r = F]) (use assms in \<open>auto simp: algebra_simps\<close>)
  moreover have "(sg * 256 + E) mod 256 = E"
    by (rule int_mod_pos_eq [where q = sg]) (use assms in \<open>auto simp: algebra_simps\<close>)
  ultimately show "?b div 8388608 mod 256 = E" by simp
  show "?b mod 8388608 = F"
    by (rule int_mod_pos_eq [where q = "sg * 256 + E"]) (use assms in \<open>auto simp: algebra_simps\<close>)
  show "0 \<le> ?b" using assms s by linarith
  show "?b < 4294967296" using assms s by linarith
qed

lemma unpack_f_fields:
  assumes "0 \<le> F" "F < 8388608" "0 \<le> E" "E < 255" "sg = 0 \<or> sg = 1"
  shows "unpack_f (be_bytes4 (sg * 2147483648 + E * 8388608 + F)) =
           Inr (Fin ((if sg = 1 then - 1 else 1) *
                     (if E = 0 then of_int F * pow2 (- 149)
                      else of_int (8388608 + F) * pow2 (E - 150))))"
proof -
  have E: "E < 256" using assms(4) by simp
  define b where "b = sg * 2147483648 + E * 8388608 + F"
  note f = bit_fields [OF assms(1,2,3) E assms(5), folded b_def]
  have l: "length (be_bytes4 b) = 4"
    by (simp add: be_bytes4_def)
  have "unpack_f (be_bytes4 b) =
           Inr (Fin ((if sg = 1 then - 1 else 1) *
                     (if E = 0 then of_int F * pow2 (- 149)
                      else of_int (8388608 + F) * pow2 (E - 150))))"
    using assms(4)
    by (simp add: unpack_f_def l be_int_be_bytes4 [OF f(4,5)] f(1,2,3) Let_def)
  then show ?thesis by (simp only: b_def)
qed

lemma pow2_23: "pow2 23 = 8388608" "pow2 24 = 16777216"
  by (simp_all add: pow2_def)

text \<open>A non-zero value \<open>M * 2 ^ q\<close> with \<open>M \<le> 2 ^ 24\<close> has an integer significand.\<close>

lemma significand_int:
  assumes a: "a = of_int M * pow2 q" and M: "0 < M" "M \<le> 16777216"
    and e: "pow2 e \<le> a"
  shows "\<exists>N. a / pow2 (e - 23) = of_int N"
proof (cases "e - 23 \<le> q")
  case True
  have "a / pow2 (e - 23) = of_int M * pow2 (q - (e - 23))"
    by (simp add: a pow2_diff)
  also have "\<dots> = of_int (M * 2 ^ nat (q - (e - 23)))"
    using True by (simp add: pow2_nat)
  finally show ?thesis by blast
next
  case False
  have "a \<le> 16777216 * pow2 q"
    using M(2) by (simp add: a mult_right_mono)
  also have "\<dots> = pow2 (q + 24)"
    by (simp add: pow2_add pow2_23)
  finally have le: "a \<le> pow2 (q + 24)" .
  with e have "pow2 e \<le> pow2 (q + 24)" by linarith
  then have "e \<le> q + 24" by (simp add: pow2_le_iff)
  with False have eq: "e = q + 24" by simp
  with le e have "a = pow2 e" by simp
  then have "a / pow2 (e - 23) = pow2 23"
    using pow2_diff [of e "e - 23"] by simp
  then have "a / pow2 (e - 23) = of_int 8388608" by (simp add: pow2_23)
  then show ?thesis by blast
qed

lemma float32_bits_normal:
  assumes a: "\<bar>y\<bar> = of_int M * pow2 q" and M: "0 < M" "M \<le> 16777216"
    and e: "- 126 \<le> ilog2 \<bar>y\<bar>" and r: "\<bar>y\<bar> < pow2 128"
  shows "unpack_f (be_bytes4 (float32_bits y)) = Inr (Fin y)"
proof -
  define e where "e = ilog2 \<bar>y\<bar>"
  have pos: "0 < \<bar>y\<bar>" using a M(1) by simp
  note b = ilog2_bounds [OF pos, folded e_def]
  from significand_int [OF a M b(1)] obtain N where N: "\<bar>y\<bar> / pow2 (e - 23) = of_int N"
    by blast
  have y: "\<bar>y\<bar> = of_int N * pow2 (e - 23)"
    using N by (simp add: field_simps)
  have p: "pow2 e = 8388608 * pow2 (e - 23)" "pow2 (e + 1) = 16777216 * pow2 (e - 23)"
    using pow2_add [of 23 "e - 23"] pow2_add [of 24 "e - 23"]
    by (simp_all add: pow2_23 add.commute)
  have "8388608 * pow2 (e - 23) \<le> of_int N * pow2 (e - 23)"
    using b(1) by (simp only: p y)
  then have "(8388608::rat) \<le> of_int N" by simp
  then have N1: "8388608 \<le> N" by linarith
  have "of_int N * pow2 (e - 23) < 16777216 * pow2 (e - 23)"
    using b(2) by (simp only: p y)
  then have "of_int N < (16777216::rat)" by simp
  then have N2: "N < 16777216" by linarith
  have "pow2 e < pow2 128" using b(1) r by linarith
  then have e2: "e < 128" by (simp add: pow2_less_iff)
  have e1: "- 126 \<le> e" using e by (simp add: e_def)
  define sg :: int where "sg = (if y < 0 then 1 else 0)"
  have bits: "float32_bits y = sg * 2147483648 + (e + 127) * 8388608 + (N - 8388608)"
    using pos e1 by (simp add: float32_bits_def Let_def N sg_def flip: e_def)
  have "unpack_f (be_bytes4 (float32_bits y)) =
          Inr (Fin ((if sg = 1 then - 1 else 1) * (of_int N * pow2 (e - 23))))"
    unfolding bits
    using N1 N2 e1 e2
    by (subst unpack_f_fields) (simp_all add: sg_def)
  also have "(if sg = 1 then - 1 else 1) * (of_int N * pow2 (e - 23)) = y"
    by (simp add: sg_def flip: y)
  finally show ?thesis .
qed

lemma float32_bits_subnormal:
  assumes a: "\<bar>y\<bar> = of_int M * pow2 q" and M: "0 < M" and q: "- 149 \<le> q"
    and e: "ilog2 \<bar>y\<bar> < - 126"
  shows "unpack_f (be_bytes4 (float32_bits y)) = Inr (Fin y)"
proof -
  define e where "e = ilog2 \<bar>y\<bar>"
  have pos: "0 < \<bar>y\<bar>" using a M(1) by simp
  note b = ilog2_bounds [OF pos, folded e_def]
  define F where "F = M * 2 ^ nat (q + 149)"
  have "\<bar>y\<bar> / pow2 (- 149) = of_int M * pow2 (q - (- 149))"
    unfolding a pow2_diff [of q "- 149"] by simp
  also have "\<dots> = of_int F"
    using q by (simp add: pow2_nat F_def)
  finally have F: "\<bar>y\<bar> / pow2 (- 149) = of_int F" .
  have y: "\<bar>y\<bar> = of_int F * pow2 (- 149)"
    using F by (simp add: field_simps)
  have "pow2 (e + 1) \<le> pow2 (- 126)" using e by (intro pow2_le) (simp add: e_def)
  also have "\<dots> = 8388608 * pow2 (- 149)"
    using pow2_add [of 23 "- 149"] by (simp add: pow2_23)
  finally have "of_int F * pow2 (- 149) < 8388608 * pow2 (- 149)"
    using b(2) by (simp only: y)
  then have "of_int F < (8388608::rat)" by simp
  then have F2: "F < 8388608" by linarith
  have "0 < of_int F * pow2 (- 149)" using pos by (simp only: y)
  then have "(0::rat) < of_int F"
    using pow2_pos [of "- 149"] by (simp add: zero_less_mult_iff not_less less_imp_le)
  then have F1: "0 < F" by simp
  define sg :: int where "sg = (if y < 0 then 1 else 0)"
  have bits: "float32_bits y = sg * 2147483648 + 0 * 8388608 + F"
    using pos e by (simp add: float32_bits_def Let_def F sg_def)
  have "unpack_f (be_bytes4 (float32_bits y)) =
          Inr (Fin ((if sg = 1 then - 1 else 1) * (of_int F * pow2 (- 149))))"
    unfolding bits
    using F1 F2
    by (subst unpack_f_fields) (simp_all add: sg_def)
  also have "(if sg = 1 then - 1 else 1) * (of_int F * pow2 (- 149)) = y"
    by (simp add: sg_def flip: y)
  finally show ?thesis .
qed

lemma unpack_f_float32_bits:
  assumes "y = of_int m * pow2 q" "\<bar>m\<bar> \<le> 16777216" "- 149 \<le> q" "\<bar>y\<bar> < pow2 128"
  shows "unpack_f (be_bytes4 (float32_bits y)) = Inr (Fin y)"
proof (cases "m = 0")
  case True
  then have "y = 0" by (simp add: assms(1))
  then show ?thesis by (simp add: float32_bits_def be_bytes4_def)
next
  case False
  have a: "\<bar>y\<bar> = of_int \<bar>m\<bar> * pow2 q" by (simp add: assms(1) abs_mult)
  have M: "0 < \<bar>m\<bar>" using False by simp
  show ?thesis
  proof (cases "- 126 \<le> ilog2 \<bar>y\<bar>")
    case True
    from a M assms(2) True assms(4) show ?thesis by (rule float32_bits_normal)
  next
    case False
    then have "ilog2 \<bar>y\<bar> < - 126" by simp
    with a M assms(3) show ?thesis by (rule float32_bits_subnormal)
  qed
qed

subsection \<open>REAL round trip\<close>

lemma float32_form:
  "\<exists>m q. float32 x = of_int m * pow2 q \<and> \<bar>m\<bar> \<le> 16777216 \<and> - 149 \<le> q"
proof (cases "x = 0")
  case True
  have "float32 x = of_int 0 * pow2 0 \<and> \<bar>0::int\<bar> \<le> 16777216 \<and> - 149 \<le> (0::int)"
    by (simp add: True)
  then show ?thesis by blast
next
  case False
  have "float32 x = of_int (round_half_even (x / pow2 (quantum 24 (- 149) x)))
                      * pow2 (quantum 24 (- 149) x)
        \<and> \<bar>round_half_even (x / pow2 (quantum 24 (- 149) x))\<bar> \<le> 16777216
        \<and> - 149 \<le> quantum 24 (- 149) x"
    using float32_eq [OF False] float32_mant [OF False] by (simp add: quantum_eq)
  then show ?thesis by blast
qed

lemma unpack_pack_f:
  assumes "\<bar>float32 x\<bar> < pow2 128"
  shows "pack_f x = Inr (be_bytes4 (float32_bits (float32 x)))"
    and "unpack_f (be_bytes4 (float32_bits (float32 x))) = Inr (Fin (float32 x))"
proof -
  show "pack_f x = Inr (be_bytes4 (float32_bits (float32 x)))"
    using assms by (simp add: pack_f_def Let_def)
  from float32_form [of x] obtain m q where
    "float32 x = of_int m * pow2 q" "\<bar>m\<bar> \<le> 16777216" "- 149 \<le> q" by blast
  then show "unpack_f (be_bytes4 (float32_bits (float32 x))) = Inr (Fin (float32 x))"
    using assms by (rule unpack_f_float32_bits)
qed

lemma float32_exact:
  assumes "x \<noteq> 0" "x / pow2 (quantum 24 (- 149) x) = of_int k"
  shows "float32 x = x"
proof -
  have "of_int k * pow2 (quantum 24 (- 149) x) = x"
    by (simp add: assms(2) [symmetric])
  then show ?thesis by (simp add: float32_eq [OF assms(1)] assms(2))
qed

lemma pow2_vals:
  "pow2 5 = 32" "pow2 6 = 64" "pow2 20 = 1048576" "pow2 (- 5) = 1 / 32"
  "pow2 (- 20) = 1 / 1048576" "pow2 (- 18) = 1 / 262144"
  by (simp_all add: pow2_def)

lemma float32_32: "\<bar>x\<bar> = 32 \<Longrightarrow> float32 x = x"
proof -
  assume a: "\<bar>x\<bar> = 32"
  then have x: "x \<noteq> 0" by auto
  have "ilog2 \<bar>x\<bar> = 5" by (rule ilog2_unique) (simp_all add: a pow2_vals)
  then have q: "quantum 24 (- 149) x = - 18" by (simp add: quantum_eq)
  from a have "x = 32 \<or> x = - 32" by auto
  then have "x / pow2 (quantum 24 (- 149) x) = of_int (if x = 32 then 8388608 else - 8388608)"
    by (auto simp: q pow2_vals)
  with x show ?thesis by (rule float32_exact)
qed

lemma float32_err_32:
  assumes "\<bar>x\<bar> \<le> 32"
  shows "\<bar>float32 x - x\<bar> \<le> 1 / 1048576"
proof (cases "x = 0 \<or> \<bar>x\<bar> = 32")
  case True
  then show ?thesis by (auto simp: float32_32)
next
  case False
  with assms have "x \<noteq> 0" "\<bar>x\<bar> < pow2 5" by (simp_all add: pow2_vals)
  from float32_err_below [OF this] show ?thesis by (simp add: pow2_vals)
qed

lemma float32_err_million:
  assumes "\<bar>x\<bar> \<le> 1000000"
  shows "\<bar>float32 x - x\<bar> \<le> 1 / 32"
proof (cases "x = 0")
  case True
  then show ?thesis by simp
next
  case False
  moreover from assms have "\<bar>x\<bar> < pow2 20" by (simp add: pow2_vals)
  ultimately have "\<bar>float32 x - x\<bar> \<le> pow2 (20 - 25)" by (rule float32_err_below) simp
  then show ?thesis by (simp add: pow2_vals)
qed

lemma float32_finite:
  assumes "\<bar>x\<bar> \<le> 1000000"
  shows "\<bar>float32 x\<bar> < pow2 128"
proof -
  have "\<bar>float32 x\<bar> \<le> \<bar>x\<bar> + \<bar>float32 x - x\<bar>" by simp
  with float32_err_million [OF assms] assms have "\<bar>float32 x\<bar> \<le> 1000001" by linarith
  moreover have "(1000001::rat) < pow2 128" by (simp add: pow2_def)
  ultimately show ?thesis by linarith
qed

lemma real_write_read:
  assumes "find_tag [''OPERATION'', ''INPUTS'', ''CUSTOM_SOLVENT''] tag = Some g"
    "cfg_type g = T_REAL" "\<bar>float32 (py_float v)\<bar> < pow2 128"
  shows "fst (plc_write_real tag v c) = Inr ()"
    and "fst (plc_read_real tag (snd (plc_write_real tag v c))) = Inr (Fin (float32 (py_float v)))"
proof -
  from real_typed_addr [OF assms(1,2)] obtain a where
    a: "span_addr [''OPERATION'', ''INPUTS'', ''CUSTOM_SOLVENT''] tag = Some a" by blast
  note p = unpack_pack_f [OF assms(3)]
  show "fst (plc_write_real tag v c) = Inr ()"
    by (simp add: write_real_addr [OF a] p(1) fst_db_write)
  have "map (cell (snd (db_write 9 a (be_bytes4 (float32_bits (float32 (py_float v)))) c)))
          [a..<a + 4] = be_bytes4 (float32_bits (float32 (py_float v)))"
    by (simp add: upt_4 cell_db_write be_bytes4_def)
  then show "fst (plc_read_real tag (snd (plc_write_real tag v c)))
               = Inr (Fin (float32 (py_float v)))"
    by (simp add: write_real_addr [OF a] read_real_addr [OF a] p)
qed

lemma float32_err_rel:
  assumes "pow2 (- 126) \<le> \<bar>x\<bar>"
  shows "\<bar>float32 x - x\<bar> \<le> \<bar>x\<bar> / 16777216"
proof -
  have pos: "0 < \<bar>x\<bar>" using assms pow2_pos [of "- 126"] by linarith
  then have x: "x \<noteq> 0" by simp
  note b = ilog2_bounds [OF pos]
  from assms b(2) have "pow2 (- 126) < pow2 (ilog2 \<bar>x\<bar> + 1)" by linarith
  then have "- 126 \<le> ilog2 \<bar>x\<bar>" by (simp add: pow2_less_iff)
  then have q: "quantum 24 (- 149) x = ilog2 \<bar>x\<bar> - 23" by (simp add: quantum_eq)
  have "pow2 (ilog2 \<bar>x\<bar>) = 8388608 * pow2 (ilog2 \<bar>x\<bar> - 23)"
    using pow2_add [of 23 "ilog2 \<bar>x\<bar> - 23"] by (simp add: pow2_23)
  with b(1) have "pow2 (ilog2 \<bar>x\<bar> - 23) / 2 \<le> \<bar>x\<bar> / 16777216" by simp
  with float32_err [OF x] show ?thesis by (simp add: q)
qed

lemma find_r_TFR:
  "find_tag [''OPERATION'', ''INPUTS'', ''CUSTOM_SOLVENT''] ''r_TFR'' = Some (entry (IntStart 204) T_REAL)"
  by (simp add: section_OPERATION section_INPUTS)

lemma above_32_vals:
  "py_float (67108867 / 2097152) = 67108867 / 2097152"
  "float32 (67108867 / 2097152) = 32"
  "py_gt (py_abs (py_sub (Fin 32) (67108867 / 2097152))) tol"
  by code_simp+

lemma tenth_vals:
  "py_float (1 / 10) = 3602879701896397 / 36028797018963968"
  "py_float (3602879701896397 / 36028797018963968) = 3602879701896397 / 36028797018963968"
  "float32 (3602879701896397 / 36028797018963968) = 13421773 / 134217728"
  by code_simp+

text \<open>
  C9, amended. For every Python float \<open>v\<close> in \<open>[-1e6, 1e6]\<close> and every tag declared REAL,
  \<^verbatim>\<open>_write_real\<close> returns normally and \<^verbatim>\<open>_read_real\<close> then returns \<open>float32 v\<close>, the binary32 value
  nearest to \<open>v\<close> (ties to even). Its distance from \<open>v\<close> is at most \<open>1 / 32\<close> on the whole
  range, at most \<open>\<bar>v\<bar> / 2 ^ 24\<close> for \<open>\<bar>v\<bar> \<ge> 2 ^ -126\<close>, and at most \<^verbatim>\<open>1e-6\<close> for \<open>\<bar>v\<bar> \<le> 32\<close>.
\<close>

theorem real_round_trip:
  "find_tag [''OPERATION'', ''INPUTS'', ''CUSTOM_SOLVENT''] tag = Some g \<and> cfg_type g = T_REAL
     \<and> py_float v = v \<and> \<bar>v\<bar> \<le> 1000000 \<longrightarrow>
       fst (plc_write_real tag v c) = Inr ()
       \<and> fst (plc_read_real tag (snd (plc_write_real tag v c))) = Inr (Fin (float32 v))
       \<and> \<bar>float32 v - v\<bar> \<le> 1 / 32
       \<and> (pow2 (- 126) \<le> \<bar>v\<bar> \<longrightarrow> \<bar>float32 v - v\<bar> \<le> \<bar>v\<bar> / 2 ^ 24)
       \<and> (\<bar>v\<bar> \<le> 32 \<longrightarrow> \<bar>float32 v - v\<bar> \<le> 1 / 10 ^ 6)"
proof (intro impI, elim conjE, intro conjI impI)
  assume t: "find_tag [''OPERATION'', ''INPUTS'', ''CUSTOM_SOLVENT''] tag = Some g"
    "cfg_type g = T_REAL" and d: "py_float v = v" and r: "\<bar>v\<bar> \<le> 1000000"
  have f: "\<bar>float32 (py_float v)\<bar> < pow2 128"
    using float32_finite [OF r] by (simp add: d)
  from real_write_read [OF t f, of c]
  show "fst (plc_write_real tag v c) = Inr ()"
    "fst (plc_read_real tag (snd (plc_write_real tag v c))) = Inr (Fin (float32 v))"
    by (simp_all add: d)
  show "\<bar>float32 v - v\<bar> \<le> 1 / 32" by (rule float32_err_million [OF r])
next
  assume "pow2 (- 126) \<le> \<bar>v\<bar>"
  from float32_err_rel [OF this] show "\<bar>float32 v - v\<bar> \<le> \<bar>v\<bar> / 2 ^ 24" by simp
next
  assume "\<bar>v\<bar> \<le> 32"
  from float32_err_32 [OF this] show "\<bar>float32 v - v\<bar> \<le> 1 / 10 ^ 6" by simp
qed

text \<open>
  The Python float \<^verbatim>\<open>0.1\<close>, written to \<^verbatim>\<open>r_TFR\<close> on a freshly connected simulator, reads back
  as \<open>13421773 / 2 ^ 27\<close>, within \<^verbatim>\<open>1e-6\<close>.
\<close>

theorem real_round_trip_witness:
  "py_float (1 / 10) = 3602879701896397 / 36028797018963968
   \<and> fst (plc_write_real ''r_TFR'' (3602879701896397 / 36028797018963968)
            (sim_connect (sim_init False))) = Inr ()
   \<and> fst (plc_read_real ''r_TFR''
            (snd (plc_write_real ''r_TFR'' (3602879701896397 / 36028797018963968)
                   (sim_connect (sim_init False))))) = Inr (Fin (13421773 / 134217728))
   \<and> \<bar>13421773 / 134217728 - 3602879701896397 / 36028797018963968 :: rat\<bar> \<le> 1 / 10 ^ 6"
  using real_round_trip [where tag = "''r_TFR''" and g = "entry (IntStart 204) T_REAL"
      and v = "3602879701896397 / 36028797018963968" and c = "sim_connect (sim_init False)"]
  by (simp add: find_r_TFR entry_def tenth_vals del: find_tag.simps)

text \<open>
  C9 as stated fails above 32. The Python float \<^verbatim>\<open>32.000001430511474609375\<close> (\<open>32 + 3 / 2 ^ 21\<close>) is
  in \<open>[-1e6, 1e6]\<close>; \<^verbatim>\<open>struct.pack('>f', ...)\<close> stores the binary32 nearest to it, which is 32 (the
  binary32 values from 32 to 64 are \<open>2 ^ -18\<close> apart). Written to \<^verbatim>\<open>r_TFR\<close> on a freshly connected
  simulator and read back, it is 32, at distance \<open>3 / 2 ^ 21\<close>, about \<^verbatim>\<open>1.43e-6\<close>, from the
  value written: more than \<^verbatim>\<open>1e-6\<close>, also by the test \<^verbatim>\<open>abs(actual - value) > 1e-6\<close> of the
  verification loop.
\<close>

theorem real_round_trip_above_32:
  "find_tag [''OPERATION'', ''INPUTS'', ''CUSTOM_SOLVENT''] ''r_TFR''
     = Some (entry (IntStart 204) T_REAL)
   \<and> py_float (67108867 / 2097152) = 67108867 / 2097152
   \<and> \<bar>67108867 / 2097152 :: rat\<bar> \<le> 1000000
   \<and> fst (plc_write_real ''r_TFR'' (67108867 / 2097152) (sim_connect (sim_init False))) = Inr ()
   \<and> fst (plc_read_real ''r_TFR''
            (snd (plc_write_real ''r_TFR'' (67108867 / 2097152) (sim_connect (sim_init False)))))
       = Inr (Fin 32)
   \<and> \<bar>32 - 67108867 / 2097152 :: rat\<bar> > 1 / 10 ^ 6
   \<and> py_gt (py_abs (py_sub (Fin 32) (67108867 / 2097152))) tol"
proof -
  have f: "\<bar>float32 (py_float (67108867 / 2097152))\<bar> < pow2 128"
    by (simp add: above_32_vals pow2_def)
  from real_write_read [OF find_r_TFR _ f, of "sim_connect (sim_init False)"]
  show ?thesis
    by (simp add: find_r_TFR entry_def above_32_vals del: find_tag.simps)
qed

end
